theory Spec2Isabelle
  imports Main "HOL-Library.Word"
begin

unbundle bit_operations_syntax

section \<open>JavaScript strings\<close>

text \<open>
  A JavaScript string is a sequence of UTF-16 code units. String literals of the source
  are ASCII and are written \<open>js ''...''\<close>.
\<close>

type_synonym jschar = "16 word"
type_synonym jsstring = "jschar list"

definition js :: "string \<Rightarrow> jsstring" where
  "js s = map of_char s"

text \<open>
  \<open>String.prototype.trim\<close> removes WhiteSpace and LineTerminator code units from both
  ends (ECMAScript: TAB, VT, FF, SP, NBSP, ZWNBSP, the category Zs, LF, CR, LS, PS).
\<close>

definition isJsSpace :: "jschar \<Rightarrow> bool" where
  "isJsSpace c \<longleftrightarrow>
     c = 0x09 \<or> c = 0x0A \<or> c = 0x0B \<or> c = 0x0C \<or> c = 0x0D \<or> c = 0x20 \<or> c = 0xA0 \<or>
     c = 0x1680 \<or> (0x2000 \<le> c \<and> c \<le> 0x200A) \<or> c = 0x2028 \<or> c = 0x2029 \<or>
     c = 0x202F \<or> c = 0x205F \<or> c = 0x3000 \<or> c = 0xFEFF"

definition trim :: "jsstring \<Rightarrow> jsstring" where
  "trim s = rev (dropWhile isJsSpace (rev (dropWhile isJsSpace s)))"

text \<open>
  \<open>s.split(sep)\<close> for a separator of one code unit: the pieces between the separators;
  a string without the separator is one piece.
\<close>

fun splitOn :: "jschar \<Rightarrow> jsstring \<Rightarrow> jsstring list" where
  "splitOn sep [] = [[]]"
| "splitOn sep (c # cs) =
     (if c = sep then [] # splitOn sep cs
      else (case splitOn sep cs of
              [] \<Rightarrow> [[c]]
            | p # ps \<Rightarrow> (c # p) # ps))"

section \<open>The JSON built-ins\<close>

text \<open>
  \<open>JSON.stringify\<close> and \<open>JSON.parse\<close> are built-ins of the runtime, modelled after
  ECMA-262 (QuoteJSONString, UnicodeEscape) and the JSON grammar of ECMA-404.
\<close>

datatype json =
    JNull
  | JBool bool
  | JNumber jsstring
  | JString jsstring
  | JArray "json list"
  | JObject "(jsstring \<times> json) list"

subsection \<open>JSON.stringify on an array of strings\<close>

definition hexdigit :: "nat \<Rightarrow> jschar" where
  "hexdigit n = (if n < 10 then 0x30 + of_nat n else 0x61 + of_nat (n - 10))"

text \<open>UnicodeEscape: a backslash, \<open>u\<close> and four lowercase hexadecimal digits.\<close>

definition UnicodeEscape :: "jschar \<Rightarrow> jsstring" where
  "UnicodeEscape c =
     [0x5C, 0x75,
      hexdigit (unat c div 4096), hexdigit (unat c div 256 mod 16),
      hexdigit (unat c div 16 mod 16), hexdigit (unat c mod 16)]"

definition isLeadingSurrogate :: "jschar \<Rightarrow> bool" where
  "isLeadingSurrogate c \<longleftrightarrow> 0xD800 \<le> c \<and> c \<le> 0xDBFF"

definition isTrailingSurrogate :: "jschar \<Rightarrow> bool" where
  "isTrailingSurrogate c \<longleftrightarrow> 0xDC00 \<le> c \<and> c \<le> 0xDFFF"

text \<open>
  The body of QuoteJSONString: the string is read by code points, so a leading surrogate
  followed by a trailing one is copied, and a surrogate on its own is escaped.
\<close>

fun quoteChars :: "jsstring \<Rightarrow> jsstring" where
  "quoteChars [] = []"
| "quoteChars (c # cs) =
     (if c = 0x08 then [0x5C, 0x62] @ quoteChars cs
      else if c = 0x09 then [0x5C, 0x74] @ quoteChars cs
      else if c = 0x0A then [0x5C, 0x6E] @ quoteChars cs
      else if c = 0x0C then [0x5C, 0x66] @ quoteChars cs
      else if c = 0x0D then [0x5C, 0x72] @ quoteChars cs
      else if c = 0x22 then [0x5C, 0x22] @ quoteChars cs
      else if c = 0x5C then [0x5C, 0x5C] @ quoteChars cs
      else if c < 0x20 then UnicodeEscape c @ quoteChars cs
      else if isLeadingSurrogate c then
        (case cs of
           [] \<Rightarrow> UnicodeEscape c
         | d # ds \<Rightarrow>
             if isTrailingSurrogate d then c # d # quoteChars ds
             else UnicodeEscape c @ quoteChars cs)
      else if isTrailingSurrogate c then UnicodeEscape c @ quoteChars cs
      else c # quoteChars cs)"

definition QuoteJSONString :: "jsstring \<Rightarrow> jsstring" where
  "QuoteJSONString s = [0x22] @ quoteChars s @ [0x22]"

fun joinComma :: "jsstring list \<Rightarrow> jsstring" where
  "joinComma [] = []"
| "joinComma [x] = x"
| "joinComma (x # y # ys) = x @ [0x2C] @ joinComma (y # ys)"

definition JSON_stringify :: "jsstring list \<Rightarrow> jsstring" where
  "JSON_stringify xs = [0x5B] @ joinComma (map QuoteJSONString xs) @ [0x5D]"

subsection \<open>JSON.parse\<close>

definition isJsonWs :: "jschar \<Rightarrow> bool" where
  "isJsonWs c \<longleftrightarrow> c = 0x20 \<or> c = 0x09 \<or> c = 0x0A \<or> c = 0x0D"

definition skipWs :: "jsstring \<Rightarrow> jsstring" where
  "skipWs s = dropWhile isJsonWs s"

definition hexval :: "jschar \<Rightarrow> nat option" where
  "hexval c =
     (if 0x30 \<le> c \<and> c \<le> 0x39 then Some (unat c - 0x30)
      else if 0x61 \<le> c \<and> c \<le> 0x66 then Some (unat c - 0x61 + 10)
      else if 0x41 \<le> c \<and> c \<le> 0x46 then Some (unat c - 0x41 + 10)
      else None)"

definition hex4 :: "jschar \<Rightarrow> jschar \<Rightarrow> jschar \<Rightarrow> jschar \<Rightarrow> jschar option" where
  "hex4 h1 h2 h3 h4 =
     (case (hexval h1, hexval h2, hexval h3, hexval h4) of
        (Some a, Some b, Some c, Some d) \<Rightarrow> Some (of_nat (((a * 16 + b) * 16 + c) * 16 + d))
      | _ \<Rightarrow> None)"

definition simpleEscape :: "jschar \<Rightarrow> jschar option" where
  "simpleEscape e =
     (if e = 0x22 then Some 0x22
      else if e = 0x5C then Some 0x5C
      else if e = 0x2F then Some 0x2F
      else if e = 0x62 then Some 0x08
      else if e = 0x66 then Some 0x0C
      else if e = 0x6E then Some 0x0A
      else if e = 0x72 then Some 0x0D
      else if e = 0x74 then Some 0x09
      else None)"

text \<open>
  The characters of a JSON string after its opening quote: the decoded string and the
  input after the closing quote. A raw control character, an unknown escape or a missing
  closing quote is a syntax error (\<open>None\<close>).
\<close>

fun parseChars :: "jsstring \<Rightarrow> (jsstring \<times> jsstring) option" where
  "parseChars [] = None"
| "parseChars (c # cs) =
     (if c = 0x22 then Some ([], cs)
      else if c = 0x5C then
        (case cs of
           [] \<Rightarrow> None
         | e # es \<Rightarrow>
             if e = 0x75 then
               (case es of
                  h1 # h2 # h3 # h4 # r \<Rightarrow>
                    (case hex4 h1 h2 h3 h4 of
                       None \<Rightarrow> None
                     | Some u \<Rightarrow>
                         (case parseChars r of
                            None \<Rightarrow> None
                          | Some (str, r') \<Rightarrow> Some (u # str, r')))
                | _ \<Rightarrow> None)
             else
               (case simpleEscape e of
                  None \<Rightarrow> None
                | Some u \<Rightarrow>
                    (case parseChars es of
                       None \<Rightarrow> None
                     | Some (str, r') \<Rightarrow> Some (u # str, r'))))
      else if c < 0x20 then None
      else
        (case parseChars cs of
           None \<Rightarrow> None
         | Some (str, r') \<Rightarrow> Some (c # str, r')))"

definition isDigit :: "jschar \<Rightarrow> bool" where
  "isDigit c \<longleftrightarrow> 0x30 \<le> c \<and> c \<le> 0x39"

text \<open>
  A JSON number: an optional minus, an integer part without a leading zero, an optional
  fraction and an optional exponent. The lexeme is kept; its numeric value is not needed.
\<close>

definition parseInt :: "jsstring \<Rightarrow> (jsstring \<times> jsstring) option" where
  "parseInt s =
     (case s of
        [] \<Rightarrow> None
      | c # cs \<Rightarrow>
          if c = 0x30 then Some ([c], cs)
          else if isDigit c then Some (c # takeWhile isDigit cs, dropWhile isDigit cs)
          else None)"

definition parseFrac :: "jsstring \<Rightarrow> (jsstring \<times> jsstring) option" where
  "parseFrac s =
     (case s of
        c # d # ds \<Rightarrow>
          if c = 0x2E then
            (if isDigit d then Some (c # d # takeWhile isDigit ds, dropWhile isDigit ds)
             else None)
          else Some ([], s)
      | _ \<Rightarrow> (if s = [0x2E] then None else Some ([], s)))"

definition parseExpDigits :: "jsstring \<Rightarrow> jsstring \<Rightarrow> (jsstring \<times> jsstring) option" where
  "parseExpDigits pre s =
     (case s of
        [] \<Rightarrow> None
      | d # ds \<Rightarrow>
          if isDigit d then Some (pre @ d # takeWhile isDigit ds, dropWhile isDigit ds)
          else None)"

definition parseExp :: "jsstring \<Rightarrow> (jsstring \<times> jsstring) option" where
  "parseExp s =
     (case s of
        [] \<Rightarrow> Some ([], s)
      | c # cs \<Rightarrow>
          if c = 0x65 \<or> c = 0x45 then
            (case cs of
               [] \<Rightarrow> None
             | g # gs \<Rightarrow>
                 if g = 0x2B \<or> g = 0x2D then parseExpDigits [c, g] gs
                 else parseExpDigits [c] cs)
          else Some ([], s))"

definition parseNumber :: "jsstring \<Rightarrow> (jsstring \<times> jsstring) option" where
  "parseNumber s =
     (let (sign, s1) = (case s of c # cs \<Rightarrow> if c = 0x2D then ([c], cs) else ([], s) | [] \<Rightarrow> ([], s))
      in case parseInt s1 of
           None \<Rightarrow> None
         | Some (i, s2) \<Rightarrow>
             (case parseFrac s2 of
                None \<Rightarrow> None
              | Some (f, s3) \<Rightarrow>
                  (case parseExp s3 of
                     None \<Rightarrow> None
                   | Some (e, s4) \<Rightarrow> Some (sign @ i @ f @ e, s4))))"

definition stripPrefix :: "jsstring \<Rightarrow> jsstring \<Rightarrow> jsstring option" where
  "stripPrefix p s = (if take (length p) s = p then Some (drop (length p) s) else None)"

text \<open>
  The recursive descent over values, array elements and object members. The first
  argument bounds the depth of the nested calls. \<open>JSON_parse\<close> starts it at the length of
  the text, which is enough for every text: a nested call follows an opening bracket whose
  closing bracket is still to come, or an element and its comma.
\<close>

fun parseValue :: "nat \<Rightarrow> jsstring \<Rightarrow> (json \<times> jsstring) option"
  and parseElements :: "nat \<Rightarrow> jsstring \<Rightarrow> (json list \<times> jsstring) option"
  and parseMembers :: "nat \<Rightarrow> jsstring \<Rightarrow> ((jsstring \<times> json) list \<times> jsstring) option"
where
  "parseValue 0 s = None"
| "parseValue (Suc n) s =
     (case s of
        [] \<Rightarrow> None
      | c # cs \<Rightarrow>
          if c = 0x22 then
            (case parseChars cs of
               None \<Rightarrow> None
             | Some (str, r) \<Rightarrow> Some (JString str, r))
          else if c = 0x5B then
            (case skipWs cs of
               [] \<Rightarrow> None
             | d # ds \<Rightarrow>
                 if d = 0x5D then Some (JArray [], ds)
                 else
                   (case parseElements n (d # ds) of
                      None \<Rightarrow> None
                    | Some (vs, r) \<Rightarrow> Some (JArray vs, r)))
          else if c = 0x7B then
            (case skipWs cs of
               [] \<Rightarrow> None
             | d # ds \<Rightarrow>
                 if d = 0x7D then Some (JObject [], ds)
                 else
                   (case parseMembers n (d # ds) of
                      None \<Rightarrow> None
                    | Some (ms, r) \<Rightarrow> Some (JObject ms, r)))
          else if c = 0x74 then
            (case stripPrefix (js ''true'') s of
               None \<Rightarrow> None
             | Some r \<Rightarrow> Some (JBool True, r))
          else if c = 0x66 then
            (case stripPrefix (js ''false'') s of
               None \<Rightarrow> None
             | Some r \<Rightarrow> Some (JBool False, r))
          else if c = 0x6E then
            (case stripPrefix (js ''null'') s of
               None \<Rightarrow> None
             | Some r \<Rightarrow> Some (JNull, r))
          else
            (case parseNumber s of
               None \<Rightarrow> None
             | Some (lexeme, r) \<Rightarrow> Some (JNumber lexeme, r)))"
| "parseElements 0 s = None"
| "parseElements (Suc n) s =
     (case parseValue n s of
        None \<Rightarrow> None
      | Some (v, r) \<Rightarrow>
          (case skipWs r of
             [] \<Rightarrow> None
           | d # ds \<Rightarrow>
               if d = 0x5D then Some ([v], ds)
               else if d = 0x2C then
                 (case parseElements n (skipWs ds) of
                    None \<Rightarrow> None
                  | Some (vs, r') \<Rightarrow> Some (v # vs, r'))
               else None))"
| "parseMembers 0 s = None"
| "parseMembers (Suc n) s =
     (case s of
        [] \<Rightarrow> None
      | q # qs \<Rightarrow>
          if q \<noteq> 0x22 then None
          else
            (case parseChars qs of
               None \<Rightarrow> None
             | Some (key, r) \<Rightarrow>
                 (case skipWs r of
                    [] \<Rightarrow> None
                  | colon # r1 \<Rightarrow>
                      if colon \<noteq> 0x3A then None
                      else
                        (case parseValue n (skipWs r1) of
                           None \<Rightarrow> None
                         | Some (v, r2) \<Rightarrow>
                             (case skipWs r2 of
                                [] \<Rightarrow> None
                              | d # ds \<Rightarrow>
                                  if d = 0x7D then Some ([(key, v)], ds)
                                  else if d = 0x2C then
                                    (case parseMembers n (skipWs ds) of
                                       None \<Rightarrow> None
                                     | Some (ms, r') \<Rightarrow> Some ((key, v) # ms, r'))
                                  else None)))))"

text \<open>\<open>JSON.parse\<close>: one value between optional white space; \<open>None\<close> is the SyntaxError.\<close>

definition JSON_parse :: "jsstring \<Rightarrow> json option" where
  "JSON_parse s =
     (case parseValue (length s) (skipWs s) of
        None \<Rightarrow> None
      | Some (v, r) \<Rightarrow> if skipWs r = [] then Some v else None)"

section \<open>src/utils/event.ts\<close>

text \<open>
  \<open>parsed.filter((item) => typeof item === "string")\<close> keeps the string items.
\<close>

fun stringItems :: "json list \<Rightarrow> jsstring list" where
  "stringItems [] = []"
| "stringItems (JString s # vs) = s # stringItems vs"
| "stringItems (v # vs) = stringItems vs"

definition parseImages :: "jsstring \<Rightarrow> jsstring list" where
  "parseImages images =
     (if images = [] then []
      else
        (case JSON_parse images of
           Some parsed \<Rightarrow> (case parsed of JArray items \<Rightarrow> stringItems items | _ \<Rightarrow> [])
         | None \<Rightarrow> filter (\<lambda>entry. entry \<noteq> []) (map trim (splitOn 0x2C images))))"

definition stringifyImages :: "jsstring list \<Rightarrow> jsstring" where
  "stringifyImages images = JSON_stringify images"

section \<open>The database and the upload directory\<close>

text \<open>
  A row of the \<open>Event\<close> table. \<open>startsAt\<close> and \<open>registrationDeadline\<close> are the
  \<open>getTime()\<close> values of the stored dates (milliseconds); \<open>images\<close> is the stored text.
\<close>

record event =
  eventId :: jsstring
  name :: jsstring
  description :: jsstring
  location :: jsstring
  startsAt :: int
  images :: jsstring
  category :: jsstring
  ownerId :: jsstring
  ownerName :: jsstring
  attendanceLimit :: int
  registrationDeadline :: int

text \<open>
  Modelled from the spec: the registration ledger, which the sources under \<open>src/\<close> do not
  contain. A registration associates one user with one event and has a creation timestamp.
\<close>

record registration =
  reg_userId :: jsstring
  reg_eventId :: jsstring
  reg_createdAt :: int

text \<open>A row of the \<open>User\<close> table (scripts/init-db.ts), with the columns the handlers write.\<close>

record user =
  userId :: jsstring
  passwordHash :: jsstring
  fullName :: jsstring
  firstName :: "jsstring option"
  lastName :: "jsstring option"
  dateOfBirth :: "int option"
  gender :: "jsstring option"
  about :: "jsstring option"
  age :: "int option"
  location_user :: "jsstring option"
  fieldOfStudies :: "jsstring option"
  universityEmail :: jsstring
  interests :: "jsstring option"
  profileImageUrl :: "jsstring option"

text \<open>
  The state the handlers share: the \<open>Event\<close> table keyed by its primary key, the
  registration ledger, the rows of the \<open>User\<close> table, and the files below
  \<open>process.cwd()\<close>, named by their path relative to it.
\<close>

record store =
  events :: "jsstring \<rightharpoonup> event"
  registrations :: "registration list"
  users :: "user list"
  files :: "jsstring set"

definition emptyStore :: store where
  "emptyStore = \<lparr>events = Map.empty, registrations = [], users = [], files = {}\<rparr>"

section \<open>src/utils/jwt.ts, src/utils/requireAuth.ts\<close>

text \<open>
  The claims of the verified token, \<open>req.user\<close>. The routers of events and profile run
  behind \<open>requireAuth\<close>, so their handlers always have one.
\<close>

record jwtPayload =
  sub :: jsstring
  email_jwt :: jsstring
  fullName_jwt :: jsstring

section \<open>Responses\<close>

text \<open>\<open>toPublicEvent\<close> of src/utils/event.ts: the row with its images parsed and the two counters.\<close>

record publicEvent =
  rest_public :: event
  images_public :: "jsstring list"
  registrationCount_public :: nat
  isRegistered_public :: bool

definition toPublicEvent :: "event \<Rightarrow> publicEvent" where
  "toPublicEvent ev =
     \<lparr>rest_public = ev, images_public = parseImages (images ev),
      registrationCount_public = 0, isRegistered_public = False\<rparr>"

datatype responseBody =
    Message string
  | InvalidInput
  | EventBody string publicEvent
  | EventOnly publicEvent
  | UserBody user
  | NoBody

record response =
  status :: nat
  body :: responseBody

definition respond :: "nat \<Rightarrow> responseBody \<Rightarrow> response" where
  "respond code b = \<lparr>status = code, body = b\<rparr>"

section \<open>src/routes/events.ts\<close>

subsection \<open>Stored image files\<close>

definition uploadPath :: "jsstring \<Rightarrow> jsstring" where
  "uploadPath filename = js ''uploads/event-images/'' @ filename"

text \<open>\<open>cleanupFiles\<close>: unlink every uploaded file of the request.\<close>

definition cleanupFiles :: "jsstring list \<Rightarrow> store \<Rightarrow> store" where
  "cleanupFiles fs st = st\<lparr>files := files st - set (map uploadPath fs)\<rparr>"

text \<open>\<open>relativePath.replace(/^\//, "")\<close>: one leading slash is dropped.\<close>

definition stripLeadingSlash :: "jsstring \<Rightarrow> jsstring" where
  "stripLeadingSlash p = (case p of [] \<Rightarrow> [] | c # cs \<Rightarrow> if c = 0x2F then cs else p)"

text \<open>
  \<open>deleteStoredImageFiles\<close>: unlink the file of every stored path. The paths stay relative
  to \<open>process.cwd()\<close>; errors of \<open>fs.unlink\<close> are ignored, as in the source.
\<close>

definition deleteStoredImageFiles :: "jsstring list \<Rightarrow> store \<Rightarrow> store" where
  "deleteStoredImageFiles imagePaths st =
     st\<lparr>files := files st - set (map stripLeadingSlash imagePaths)\<rparr>"

subsection \<open>validateSchedule\<close>

definition validateSchedule :: "int \<Rightarrow> int \<Rightarrow> int \<Rightarrow> string option" where
  "validateSchedule startsAt' registrationDeadline' now =
     (if startsAt' \<le> now then Some ''Event time must be in the future''
      else if registrationDeadline' \<le> now then
        Some ''Registration deadline must be in the future''
      else if registrationDeadline' \<ge> startsAt' then
        Some ''Registration deadline must be before the event start time''
      else None)"

subsection \<open>createEventSchema\<close>

text \<open>
  The request body as the form parser leaves it: a text field is a string or missing.
  For a date field the model holds what \<open>new Date(value).getTime()\<close> makes of the
  submitted text: \<open>DateMissing\<close> when the field is missing or empty, \<open>DateInvalid\<close> when
  the result is NaN. For a number field it holds \<open>Number(value)\<close>: \<open>NotInteger\<close> when
  that is NaN, infinite or has a fraction.
\<close>

datatype dateInput = DateMissing | DateInvalid | DateValue int

datatype numericInput = Absent | NotInteger | Integer int

record eventBody =
  name_body :: "jsstring option"
  description_body :: "jsstring option"
  location_body :: "jsstring option"
  time_body :: dateInput
  eventOwner_body :: "jsstring option"
  category_body :: "jsstring option"
  attendanceLimit_body :: numericInput
  registrationDeadline_body :: dateInput

record eventData =
  name_data :: jsstring
  description_data :: jsstring
  location_data :: jsstring
  time_data :: int
  eventOwner_data :: jsstring
  category_data :: jsstring
  attendanceLimit_data :: int
  registrationDeadline_data :: int

text \<open>\<open>z.string().min(lo).max(hi)\<close>\<close>

definition zString :: "nat \<Rightarrow> nat \<Rightarrow> jsstring option \<Rightarrow> jsstring option" where
  "zString lo hi field =
     (case field of
        None \<Rightarrow> None
      | Some v \<Rightarrow> if lo \<le> length v \<and> length v \<le> hi then Some v else None)"

text \<open>\<open>z.string().min(lo)\<close>\<close>

definition zStringMin :: "nat \<Rightarrow> jsstring option \<Rightarrow> jsstring option" where
  "zStringMin lo field =
     (case field of
        None \<Rightarrow> None
      | Some v \<Rightarrow> if lo \<le> length v then Some v else None)"

text \<open>
  \<open>z.string().min(1).transform((value) => new Date(value)).refine(...)\<close>: the text must
  be there and must be a date.
\<close>

definition zDate :: "dateInput \<Rightarrow> int option" where
  "zDate field = (case field of DateValue t \<Rightarrow> Some t | _ \<Rightarrow> None)"

text \<open>\<open>z.coerce.number().int().positive()\<close>\<close>

definition zPositiveInt :: "numericInput \<Rightarrow> int option" where
  "zPositiveInt field =
     (case field of
        Integer n \<Rightarrow> if 0 < n then Some n else None
      | _ \<Rightarrow> None)"

definition createEventSchema :: "eventBody \<Rightarrow> eventData option" where
  "createEventSchema b =
     (case (zString 1 200 (name_body b), zString 1 4000 (description_body b),
            zString 1 240 (location_body b), zDate (time_body b),
            zString 1 200 (eventOwner_body b), zString 1 200 (category_body b),
            zPositiveInt (attendanceLimit_body b), zDate (registrationDeadline_body b)) of
        (Some n, Some d, Some l, Some t, Some ow, Some c, Some a, Some r) \<Rightarrow>
          Some \<lparr>name_data = n, description_data = d, location_data = l, time_data = t,
                eventOwner_data = ow, category_data = c, attendanceLimit_data = a,
                registrationDeadline_data = r\<rparr>
      | _ \<Rightarrow> None)"

definition updateEventSchema :: "eventBody \<Rightarrow> eventData option" where
  "updateEventSchema = createEventSchema"

subsection \<open>handleCreateEvent\<close>

text \<open>\<open>a || b || c\<close> on strings: the first one that is not empty, else the last.\<close>

definition firstNonEmpty :: "jsstring \<Rightarrow> jsstring \<Rightarrow> jsstring \<Rightarrow> jsstring" where
  "firstNonEmpty a b c = (if a \<noteq> [] then a else if b \<noteq> [] then b else c)"

definition imagePathOf :: "jsstring \<Rightarrow> jsstring" where
  "imagePathOf filename = js ''/uploads/event-images/'' @ filename"

text \<open>
  \<open>prisma.event.create\<close>: the new row gets the primary key the client generates, here
  the argument \<open>newId\<close>; a key that is already taken makes the call throw (\<open>None\<close>).
\<close>

definition prisma_event_create :: "event \<Rightarrow> store \<Rightarrow> store option" where
  "prisma_event_create ev st =
     (if events st (eventId ev) \<noteq> None then None
      else Some (st\<lparr>events := (events st)(eventId ev \<mapsto> ev)\<rparr>))"

text \<open>
  The handler gets the token's claims, the body, the file names of the uploaded images
  (\<open>req.files\<close>, empty when there are none), the clock and the key for the new row.
  \<open>Inl\<close> is a rejected promise.
\<close>

definition handleCreateEvent ::
  "jwtPayload \<Rightarrow> eventBody \<Rightarrow> jsstring list \<Rightarrow> int \<Rightarrow> jsstring \<Rightarrow> store \<Rightarrow> unit + (response \<times> store)"
where
  "handleCreateEvent usr b reqFiles now newId st =
     (case createEventSchema b of
        None \<Rightarrow> Inr (respond 400 InvalidInput, cleanupFiles reqFiles st)
      | Some d \<Rightarrow>
          (case validateSchedule (time_data d) (registrationDeadline_data d) now of
             Some scheduleError \<Rightarrow>
               Inr (respond 400 (Message scheduleError), cleanupFiles reqFiles st)
           | None \<Rightarrow>
               (let imagePaths = map imagePathOf reqFiles;
                    ownerName' =
                      firstNonEmpty (trim (eventOwner_data d)) (trim (fullName_jwt usr))
                        (js ''Event Owner'');
                    ev = \<lparr>eventId = newId, name = name_data d,
                          description = description_data d, location = location_data d,
                          startsAt = time_data d, images = stringifyImages imagePaths,
                          category = category_data d, ownerId = sub usr,
                          ownerName = ownerName',
                          attendanceLimit = attendanceLimit_data d,
                          registrationDeadline = registrationDeadline_data d\<rparr>
                in case prisma_event_create ev st of
                     None \<Rightarrow> Inl ()
                   | Some st' \<Rightarrow>
                       Inr (respond 201 (EventBody ''Event created successfully''
                              (toPublicEvent ev)), st'))))"

subsection \<open>handleUpdateEvent\<close>

definition handleUpdateEvent ::
  "jwtPayload \<Rightarrow> eventBody \<Rightarrow> jsstring list \<Rightarrow> jsstring \<Rightarrow> int \<Rightarrow> store \<Rightarrow> response \<times> store"
where
  "handleUpdateEvent usr b reqFiles eid now st =
     (case updateEventSchema b of
        None \<Rightarrow> (respond 400 InvalidInput, cleanupFiles reqFiles st)
      | Some d \<Rightarrow>
          if eid = [] then
            (respond 400 (Message ''Event id is required''), cleanupFiles reqFiles st)
          else
            (case events st eid of
               None \<Rightarrow> (respond 404 (Message ''Event not found''), cleanupFiles reqFiles st)
             | Some existingEvent \<Rightarrow>
                 if ownerId existingEvent \<noteq> sub usr then
                   (respond 403 (Message ''You are not allowed to edit this event''),
                    cleanupFiles reqFiles st)
                 else
                   (case validateSchedule (time_data d) (registrationDeadline_data d) now of
                      Some scheduleError \<Rightarrow>
                        (respond 400 (Message scheduleError), cleanupFiles reqFiles st)
                    | None \<Rightarrow>
                        (let currentImages = parseImages (images existingEvent);
                             imagePaths =
                               (if reqFiles \<noteq> [] then map imagePathOf reqFiles
                                else currentImages);
                             updatedEvent = existingEvent
                               \<lparr>name := name_data d,
                                description := description_data d,
                                location := location_data d,
                                startsAt := time_data d,
                                images := stringifyImages imagePaths,
                                category := category_data d,
                                attendanceLimit := attendanceLimit_data d,
                                registrationDeadline := registrationDeadline_data d,
                                ownerName :=
                                  firstNonEmpty (trim (eventOwner_data d))
                                    (trim (fullName_jwt usr)) (ownerName existingEvent)\<rparr>;
                             st1 = st\<lparr>events := (events st)(eid \<mapsto> updatedEvent)\<rparr>;
                             st2 = (if reqFiles \<noteq> [] then deleteStoredImageFiles currentImages st1
                                    else st1)
                         in (respond 200 (EventBody ''Event updated successfully''
                               (toPublicEvent updatedEvent)), st2)))))"

subsection \<open>The routes\<close>

text \<open>
  What \<open>upload.array("images", 5)\<close> hands to the route: an error (too many files, a file
  too large, a type other than PNG or JPEG), after which nothing of the request is left on
  disk, or the names of the files it has written to the upload directory.
\<close>

datatype uploadResult = UploadError string | Uploaded "jsstring list"

definition storeUploads :: "jsstring list \<Rightarrow> store \<Rightarrow> store" where
  "storeUploads fs st = st\<lparr>files := files st \<union> set (map uploadPath fs)\<rparr>"

text \<open>
  \<open>router.post("/")\<close>. A rejected promise is passed to \<open>next\<close> after the cleanup, and the
  application's error handler answers 500.
\<close>

definition postEvent ::
  "jwtPayload \<Rightarrow> eventBody \<Rightarrow> uploadResult \<Rightarrow> int \<Rightarrow> jsstring \<Rightarrow> store \<Rightarrow> response \<times> store"
where
  "postEvent usr b up now newId st =
     (case up of
        UploadError msg \<Rightarrow> (respond 400 (Message msg), st)
      | Uploaded fs \<Rightarrow>
          (case handleCreateEvent usr b fs now newId (storeUploads fs st) of
             Inr r \<Rightarrow> r
           | Inl _ \<Rightarrow>
               (respond 500 (Message ''Internal server error''),
                cleanupFiles fs (storeUploads fs st))))"

text \<open>\<open>router.put("/:eventId")\<close>\<close>

definition putEvent ::
  "jwtPayload \<Rightarrow> eventBody \<Rightarrow> uploadResult \<Rightarrow> jsstring \<Rightarrow> int \<Rightarrow> store \<Rightarrow> response \<times> store"
where
  "putEvent usr b up eid now st =
     (case up of
        UploadError msg \<Rightarrow> (respond 400 (Message msg), st)
      | Uploaded fs \<Rightarrow> handleUpdateEvent usr b fs eid now (storeUploads fs st))"

text \<open>\<open>router.get("/:eventId")\<close>\<close>

definition getEvent :: "jsstring \<Rightarrow> store \<Rightarrow> response" where
  "getEvent eid st =
     (if eid = [] then respond 400 (Message ''Event id is required'')
      else
        (case events st eid of
           None \<Rightarrow> respond 404 (Message ''Event not found'')
         | Some ev \<Rightarrow> respond 200 (EventOnly (toPublicEvent ev))))"

text \<open>
  Modelled from the spec: \<open>deleteAllForEvent(eventId)\<close> of the registration ledger.
\<close>

definition deleteAllForEvent :: "jsstring \<Rightarrow> registration list \<Rightarrow> registration list" where
  "deleteAllForEvent eid regs = filter (\<lambda>r. reg_eventId r \<noteq> eid) regs"

text \<open>
  \<open>prisma.event.delete({ where: { id } })\<close> removes the row. Modelled from the spec: the
  relation between events and registrations, whose schema is not under \<open>src/\<close>; deleting an
  event removes, implicitly, all its registrations.
\<close>

definition prisma_event_delete :: "jsstring \<Rightarrow> store \<Rightarrow> store" where
  "prisma_event_delete eid st =
     st\<lparr>events := (events st)(eid := None),
        registrations := deleteAllForEvent eid (registrations st)\<rparr>"

text \<open>\<open>router.delete("/:eventId")\<close>\<close>

definition deleteEvent :: "jwtPayload \<Rightarrow> jsstring \<Rightarrow> store \<Rightarrow> response \<times> store" where
  "deleteEvent usr eid st =
     (if eid = [] then (respond 400 (Message ''Event id is required''), st)
      else
        (case events st eid of
           None \<Rightarrow> (respond 404 (Message ''Event not found''), st)
         | Some ev \<Rightarrow>
             if ownerId ev \<noteq> sub usr then
               (respond 403 (Message ''You are not allowed to delete this event''), st)
             else
               (respond 204 NoBody,
                deleteStoredImageFiles (parseImages (images ev)) (prisma_event_delete eid st))))"

section \<open>Registration for an event\<close>

text \<open>
  The route \<open>POST /events/:eventId/register\<close> is described by the README, but its
  handler and the table of the registrations are not under \<open>src/\<close>. The ledger and
  \<open>Register\<close> follow sections 4.1 and 4.2 of the specification.
\<close>

text \<open>
  Modelled from the spec: \<open>count(eventId)\<close> of the registration ledger, the number of
  registrations of the event.
\<close>

definition count_ledger :: "jsstring \<Rightarrow> registration list \<Rightarrow> nat" where
  "count_ledger eid regs = length (filter (\<lambda>r. reg_eventId r = eid) regs)"

text \<open>
  Modelled from the spec: \<open>exists(userId, eventId)\<close> of the registration ledger.
\<close>

definition exists_ledger :: "jsstring \<Rightarrow> jsstring \<Rightarrow> registration list \<Rightarrow> bool" where
  "exists_ledger uid eid regs \<longleftrightarrow> (\<exists>r \<in> set regs. reg_userId r = uid \<and> reg_eventId r = eid)"

text \<open>
  Modelled from the spec: \<open>insert(userId, eventId, now)\<close> of the registration ledger,
  which fails with a constraint violation (\<open>None\<close>) when the pair exists.
\<close>

definition insert_ledger ::
  "jsstring \<Rightarrow> jsstring \<Rightarrow> int \<Rightarrow> registration list \<Rightarrow> registration list option"
where
  "insert_ledger uid eid now regs =
     (if exists_ledger uid eid regs then None
      else Some (regs @ [\<lparr>reg_userId = uid, reg_eventId = eid, reg_createdAt = now\<rparr>]))"

text \<open>
  Modelled from the spec: the errors of \<open>Register\<close> and its confirmation, which carries
  the current registration count.
\<close>

datatype registerError =
    NotFoundError
  | RegistrationClosedError
  | CapacityExceededError
  | DuplicateRegistrationError

record confirmation =
  registrationCount :: nat

text \<open>
  Modelled from the spec: \<open>Register(eventId, userId, now)\<close>, the handler of the register
  route. It fails with NotFoundError if the event is missing, with
  RegistrationClosedError if \<open>now \<ge> registrationDeadline\<close>, with CapacityExceededError if
  the current count has reached \<open>attendanceLimit\<close>, and with DuplicateRegistrationError if
  the user already holds a registration for the event. A passed deadline closes the
  registration regardless of the remaining capacity. Where an event is full and the user
  already holds a registration the spec names either error; its scenario of a user who
  registers twice asks for DuplicateRegistrationError, so that check is made before the
  count, and the theorem about \<open>Register\<close> does not depend on this order. The check of the
  capacity and the insertion are one step; the confirmation carries the count after
  the insertion.
\<close>

definition Register ::
  "jsstring \<Rightarrow> jsstring \<Rightarrow> int \<Rightarrow> store \<Rightarrow> (registerError + confirmation) \<times> store"
where
  "Register eid uid now st =
     (case events st eid of
        None \<Rightarrow> (Inl NotFoundError, st)
      | Some ev \<Rightarrow>
          if now \<ge> registrationDeadline ev then (Inl RegistrationClosedError, st)
          else if exists_ledger uid eid (registrations st) then
            (Inl DuplicateRegistrationError, st)
          else if int (count_ledger eid (registrations st)) \<ge> attendanceLimit ev then
            (Inl CapacityExceededError, st)
          else
            (case insert_ledger uid eid now (registrations st) of
               None \<Rightarrow> (Inl DuplicateRegistrationError, st)
             | Some regs \<Rightarrow>
                 (Inr \<lparr>registrationCount = count_ledger eid regs\<rparr>,
                  st\<lparr>registrations := regs\<rparr>)))"

section \<open>Accounts\<close>

subsection \<open>The runtime and the environment\<close>

text \<open>
  Two functions of the runtime and of zod that the handlers call are taken as parameters:
  \<open>String.prototype.toLowerCase\<close> and the format check behind \<open>z.string().email()\<close>.
  \<open>ENV\<close> is the validated environment of src/env.ts.
\<close>

record runtime =
  toLowerCase :: "jsstring \<Rightarrow> jsstring"
  isEmail :: "jsstring \<Rightarrow> bool"

record env =
  ALLOWED_EMAIL_DOMAIN :: jsstring

definition isAllowedDomain :: "runtime \<Rightarrow> env \<Rightarrow> jsstring \<Rightarrow> bool" where
  "isAllowedDomain rt ENV email =
     (case splitOn 0x40 email of
        _ # domain # _ \<Rightarrow> toLowerCase rt domain = toLowerCase rt (ALLOWED_EMAIL_DOMAIN ENV)
      | _ \<Rightarrow> False)"

subsection \<open>Schemas\<close>

text \<open>A form field that may be repeated: missing, one string, or an array of strings.\<close>

datatype formValue = Missing | Single jsstring | Many "jsstring list"

text \<open>\<open>z.string().max(hi).optional()\<close>: \<open>None\<close> is the failure, \<open>Some None\<close> the missing field.\<close>

definition zOptionalString :: "nat \<Rightarrow> jsstring option \<Rightarrow> jsstring option option" where
  "zOptionalString hi field =
     (case field of
        None \<Rightarrow> Some None
      | Some v \<Rightarrow> if length v \<le> hi then Some (Some v) else None)"

text \<open>\<open>z.coerce.number().int().positive().max(120).optional()\<close>\<close>

definition zOptionalAge :: "numericInput \<Rightarrow> int option option" where
  "zOptionalAge field =
     (case field of
        Absent \<Rightarrow> Some None
      | NotInteger \<Rightarrow> None
      | Integer n \<Rightarrow> if 0 < n \<and> n \<le> 120 then Some (Some n) else None)"

text \<open>\<open>z.array(z.string().min(1).max(40)).max(hi)\<close>\<close>

definition zInterests :: "nat \<Rightarrow> jsstring list \<Rightarrow> jsstring list option" where
  "zInterests hi xs =
     (if length xs \<le> hi \<and> (\<forall>x \<in> set xs. 1 \<le> length x \<and> length x \<le> 40) then Some xs
      else None)"

text \<open>\<open>z.string().email()\<close>\<close>

definition zEmail :: "runtime \<Rightarrow> jsstring option \<Rightarrow> jsstring option" where
  "zEmail rt field =
     (case field of
        None \<Rightarrow> None
      | Some v \<Rightarrow> if isEmail rt v then Some v else None)"

record registerBody =
  fullName_body :: "jsstring option"
  password_body :: "jsstring option"
  age_body :: numericInput
  location_rbody :: "jsstring option"
  fieldOfStudies_body :: "jsstring option"
  universityEmail_body :: "jsstring option"
  interests_body :: formValue

record registerData =
  fullName_data :: jsstring
  password_data :: jsstring
  age_data :: "int option"
  location_rdata :: "jsstring option"
  fieldOfStudies_data :: "jsstring option"
  universityEmail_data :: jsstring
  interests_data :: "jsstring list option"

text \<open>\<open>registerSchema\<close> of the registration handler with \<open>universityEmail\<close> as the only address.\<close>

definition registerSchema :: "runtime \<Rightarrow> registerBody \<Rightarrow> registerData option" where
  "registerSchema rt b =
     (case (zString 2 120 (fullName_body b),
            zStringMin 6 (password_body b),
            zOptionalAge (age_body b),
            zOptionalString 120 (location_rbody b),
            zOptionalString 120 (fieldOfStudies_body b),
            zEmail rt (universityEmail_body b),
            (case interests_body b of
               Missing \<Rightarrow> Some None
             | Single _ \<Rightarrow> None
             | Many xs \<Rightarrow> map_option Some (zInterests 10 xs))) of
        (Some fn, Some pw, Some a, Some l, Some f, Some e, Some i) \<Rightarrow>
          Some \<lparr>fullName_data = fn, password_data = pw, age_data = a, location_rdata = l,
                fieldOfStudies_data = f, universityEmail_data = e, interests_data = i\<rparr>
      | _ \<Rightarrow> None)"

subsection \<open>handleRegister\<close>

definition profileUploadPath :: "jsstring \<Rightarrow> jsstring" where
  "profileUploadPath filename = js ''uploads/profile-images/'' @ filename"

definition profileImagePathOf :: "jsstring \<Rightarrow> jsstring" where
  "profileImagePathOf filename = js ''/uploads/profile-images/'' @ filename"

text \<open>\<open>if (req.file) fs.unlink(req.file.path, ...)\<close>\<close>

definition unlinkUpload :: "jsstring option \<Rightarrow> store \<Rightarrow> store" where
  "unlinkUpload reqFile st =
     (case reqFile of
        None \<Rightarrow> st
      | Some filename \<Rightarrow> st\<lparr>files := files st - {profileUploadPath filename}\<rparr>)"

text \<open>\<open>prisma.user.findUnique({ where: { universityEmail } })\<close> and \<open>{ where: { id } }\<close>\<close>

definition findUserByEmail :: "jsstring \<Rightarrow> store \<Rightarrow> user option" where
  "findUserByEmail e st = find (\<lambda>u. universityEmail u = e) (users st)"

definition findUserById :: "jsstring \<Rightarrow> store \<Rightarrow> user option" where
  "findUserById i st = find (\<lambda>u. userId u = i) (users st)"

text \<open>
  \<open>prisma.user.create\<close>: the table has \<open>id\<close> as its primary key and \<open>universityEmail\<close>
  UNIQUE (scripts/init-db.ts); a row that breaks either makes the call throw (\<open>None\<close>).
\<close>

definition prisma_user_create :: "user \<Rightarrow> store \<Rightarrow> store option" where
  "prisma_user_create u st =
     (if findUserById (userId u) st \<noteq> None \<or> findUserByEmail (universityEmail u) st \<noteq> None
      then None
      else Some (st\<lparr>users := users st @ [u]\<rparr>))"

text \<open>\<open>s.split(/\s+/)\<close>: the pieces between the runs of white space.\<close>

function splitSpaces :: "jsstring \<Rightarrow> jsstring list" where
  "splitSpaces [] = [[]]"
| "splitSpaces (c # cs) =
     (if isJsSpace c then [] # splitSpaces (dropWhile isJsSpace cs)
      else (case splitSpaces cs of
              [] \<Rightarrow> [[c]]
            | p # ps \<Rightarrow> (c # p) # ps))"
  by pat_completeness auto
termination
  by (relation "measure length") (auto simp: less_Suc_eq_le length_dropWhile_le)

fun joinWith :: "jsstring \<Rightarrow> jsstring list \<Rightarrow> jsstring" where
  "joinWith sep [] = []"
| "joinWith sep [x] = x"
| "joinWith sep (x # y # ys) = x @ sep @ joinWith sep (y # ys)"

text \<open>\<open>s || null\<close>\<close>

definition orNull :: "jsstring \<Rightarrow> jsstring option" where
  "orNull s = (if s = [] then None else Some s)"

text \<open>
  The handler gets the body, the name of the uploaded profile image if there is one
  (\<open>req.file\<close>), the key that the client generates for the new row and the hash that
  \<open>bcrypt.hash\<close> returns. \<open>Inl\<close> is a rejected promise. The token of the answer is not
  modelled.
\<close>

definition handleRegister ::
  "runtime \<Rightarrow> env \<Rightarrow> registerBody \<Rightarrow> jsstring option \<Rightarrow> jsstring \<Rightarrow> jsstring \<Rightarrow> store \<Rightarrow>
     unit + (response \<times> store)"
where
  "handleRegister rt ENV b reqFile newId hash st =
     (case registerSchema rt b of
        None \<Rightarrow> Inr (respond 400 InvalidInput, unlinkUpload reqFile st)
      | Some d \<Rightarrow>
          (let universityEmail' = toLowerCase rt (universityEmail_data d)
           in if \<not> isAllowedDomain rt ENV universityEmail' then
                Inr (respond 400 (Message ''University email must end with the allowed domain''),
                     unlinkUpload reqFile st)
              else
                (case findUserByEmail universityEmail' st of
                   Some existing \<Rightarrow>
                     Inr (respond 409 (Message ''An account already exists''),
                          unlinkUpload reqFile st)
                 | None \<Rightarrow>
                     (let names = splitSpaces (trim (fullName_data d));
                          u = \<lparr>userId = newId, passwordHash = hash,
                               fullName = fullName_data d,
                               firstName = (case names of [] \<Rightarrow> None | f # _ \<Rightarrow> orNull f),
                               lastName = orNull (joinWith (js '' '') (drop 1 names)),
                               dateOfBirth = None, gender = None, about = None,
                               age = age_data d,
                               location_user = location_rdata d,
                               fieldOfStudies = fieldOfStudies_data d,
                               universityEmail = universityEmail',
                               interests = map_option (joinWith (js '','')) (interests_data d),
                               profileImageUrl = map_option profileImagePathOf reqFile\<rparr>
                      in case prisma_user_create u st of
                           None \<Rightarrow> Inl ()
                         | Some st' \<Rightarrow> Inr (respond 201 (UserBody u), st')))))"

text \<open>
  What \<open>upload.single("profileImage")\<close> hands to the route: an error, or the name of the
  file it has written, if the request had one.
\<close>

datatype singleUpload = SingleUploadError string | SingleUploaded "jsstring option"

definition storeUpload :: "jsstring option \<Rightarrow> store \<Rightarrow> store" where
  "storeUpload reqFile st =
     (case reqFile of
        None \<Rightarrow> st
      | Some filename \<Rightarrow> st\<lparr>files := insert (profileUploadPath filename) (files st)\<rparr>)"

text \<open>\<open>router.post("/register")\<close>\<close>

definition postRegister ::
  "runtime \<Rightarrow> env \<Rightarrow> registerBody \<Rightarrow> singleUpload \<Rightarrow> jsstring \<Rightarrow> jsstring \<Rightarrow> store \<Rightarrow>
     response \<times> store"
where
  "postRegister rt ENV b up newId hash st =
     (case up of
        SingleUploadError msg \<Rightarrow> (respond 400 (Message msg), st)
      | SingleUploaded reqFile \<Rightarrow>
          (case handleRegister rt ENV b reqFile newId hash (storeUpload reqFile st) of
             Inr r \<Rightarrow> r
           | Inl _ \<Rightarrow>
               (respond 500 (Message ''Internal server error''),
                unlinkUpload reqFile (storeUpload reqFile st))))"

section \<open>src/routes/profile.ts\<close>

record profileBody =
  firstName_pbody :: "jsstring option"
  lastName_pbody :: "jsstring option"
  dateOfBirth_pbody :: dateInput
  gender_pbody :: "jsstring option"
  about_pbody :: "jsstring option"
  age_pbody :: numericInput
  location_pbody :: "jsstring option"
  fieldOfStudies_pbody :: "jsstring option"
  universityEmail_pbody :: "jsstring option"
  interests_pbody :: formValue

record profileData =
  firstName_pdata :: jsstring
  lastName_pdata :: jsstring
  dateOfBirth_pdata :: "int option"
  gender_pdata :: "jsstring option"
  about_pdata :: "jsstring option"
  age_pdata :: int
  location_pdata :: jsstring
  fieldOfStudies_pdata :: jsstring
  universityEmail_pdata :: jsstring
  interests_pdata :: "jsstring list option"

text \<open>The \<open>preprocess\<close> step of \<open>interests\<close>: every non-empty string is split at its commas.\<close>

definition splitEntries :: "jsstring \<Rightarrow> jsstring list" where
  "splitEntries item = (if item \<noteq> [] then map trim (splitOn 0x2C item) else [])"

definition preprocessInterests :: "formValue \<Rightarrow> jsstring list" where
  "preprocessInterests v =
     (case v of
        Many items \<Rightarrow> concat (map splitEntries items)
      | Single item \<Rightarrow> splitEntries item
      | Missing \<Rightarrow> [])"

definition profileSchema :: "runtime \<Rightarrow> profileBody \<Rightarrow> profileData option" where
  "profileSchema rt b =
     (case (zString 1 120 (firstName_pbody b), zString 1 120 (lastName_pbody b),
            (case dateOfBirth_pbody b of
               DateMissing \<Rightarrow> Some None
             | DateInvalid \<Rightarrow> None
             | DateValue t \<Rightarrow> Some (Some t)),
            zOptionalString 60 (gender_pbody b), zOptionalString 600 (about_pbody b),
            (case age_pbody b of
               Integer n \<Rightarrow> if 16 \<le> n \<and> n \<le> 120 then Some n else None
             | _ \<Rightarrow> None),
            zString 1 180 (location_pbody b), zString 1 180 (fieldOfStudies_pbody b),
            zEmail rt (zStringMin 1 (universityEmail_pbody b)),
            (case interests_pbody b of
               Missing \<Rightarrow> Some None
             | v \<Rightarrow> map_option Some (zInterests 12 (preprocessInterests v)))) of
        (Some fn, Some ln, Some dob, Some g, Some ab, Some a, Some l, Some f, Some e, Some i) \<Rightarrow>
          Some \<lparr>firstName_pdata = fn, lastName_pdata = ln, dateOfBirth_pdata = dob,
                gender_pdata = g, about_pdata = ab, age_pdata = a, location_pdata = l,
                fieldOfStudies_pdata = f, universityEmail_pdata = e, interests_pdata = i\<rparr>
      | _ \<Rightarrow> None)"

text \<open>
  \<open>prisma.user.update({ where: { id } })\<close>: the row with the key is replaced; an address
  that another row holds breaks the UNIQUE constraint and the call throws (\<open>None\<close>).
\<close>

definition prisma_user_update :: "jsstring \<Rightarrow> user \<Rightarrow> store \<Rightarrow> store option" where
  "prisma_user_update i u st =
     (if \<exists>v \<in> set (users st). userId v \<noteq> i \<and> universityEmail v = universityEmail u
      then None
      else Some (st\<lparr>users := map (\<lambda>v. if userId v = i then u else v) (users st)\<rparr>))"

definition handleProfileUpdate ::
  "runtime \<Rightarrow> env \<Rightarrow> jwtPayload \<Rightarrow> profileBody \<Rightarrow> jsstring option \<Rightarrow> store \<Rightarrow>
     unit + (response \<times> store)"
where
  "handleProfileUpdate rt ENV usr b reqFile st =
     (case profileSchema rt b of
        None \<Rightarrow> Inr (respond 400 InvalidInput, unlinkUpload reqFile st)
      | Some d \<Rightarrow>
          (let normalizedUniversityEmail = toLowerCase rt (universityEmail_pdata d)
           in if \<not> isAllowedDomain rt ENV normalizedUniversityEmail then
                Inr (respond 400 (Message ''University email must end with the allowed domain''),
                     unlinkUpload reqFile st)
              else
                (case findUserById (sub usr) st of
                   None \<Rightarrow> Inr (respond 404 (Message ''User not found''), unlinkUpload reqFile st)
                 | Some existingUser \<Rightarrow>
                     if normalizedUniversityEmail \<noteq> universityEmail existingUser \<and>
                        (case findUserByEmail normalizedUniversityEmail st of
                           None \<Rightarrow> False
                         | Some emailTaken \<Rightarrow> userId emailTaken \<noteq> sub usr)
                     then
                       Inr (respond 409 (Message ''University email already in use''),
                            unlinkUpload reqFile st)
                     else
                       (let profileImageUrl' =
                              (case reqFile of
                                 Some filename \<Rightarrow> Some (profileImagePathOf filename)
                               | None \<Rightarrow> profileImageUrl existingUser);
                            st1 =
                              (case (reqFile, profileImageUrl existingUser) of
                                 (Some _, Some old) \<Rightarrow>
                                   if old \<noteq> [] then st\<lparr>files := files st - {stripLeadingSlash old}\<rparr>
                                   else st
                               | _ \<Rightarrow> st);
                            updated = existingUser
                              \<lparr>fullName := trim (firstName_pdata d @ js '' '' @ lastName_pdata d),
                               firstName := Some (firstName_pdata d),
                               lastName := Some (lastName_pdata d),
                               dateOfBirth := dateOfBirth_pdata d,
                               gender := gender_pdata d,
                               about := about_pdata d,
                               age := Some (age_pdata d),
                               location_user := Some (location_pdata d),
                               fieldOfStudies := Some (fieldOfStudies_pdata d),
                               universityEmail := normalizedUniversityEmail,
                               interests :=
                                 Some (joinWith (js '','')
                                   (case interests_pdata d of None \<Rightarrow> [] | Some xs \<Rightarrow> xs)),
                               profileImageUrl := profileImageUrl'\<rparr>
                        in case prisma_user_update (sub usr) updated st1 of
                             None \<Rightarrow> Inl ()
                           | Some st' \<Rightarrow> Inr (respond 200 (UserBody updated), st')))))"

text \<open>\<open>router.put("/")\<close> of the profile: a rejected promise goes to \<open>next\<close>, without cleanup.\<close>

definition putProfile ::
  "runtime \<Rightarrow> env \<Rightarrow> jwtPayload \<Rightarrow> profileBody \<Rightarrow> singleUpload \<Rightarrow> store \<Rightarrow> response \<times> store"
where
  "putProfile rt ENV usr b up st =
     (case up of
        SingleUploadError msg \<Rightarrow> (respond 400 (Message msg), st)
      | SingleUploaded reqFile \<Rightarrow>
          (case handleProfileUpdate rt ENV usr b reqFile (storeUpload reqFile st) of
             Inr r \<Rightarrow> r
           | Inl _ \<Rightarrow>
               (respond 500 (Message ''Internal server error''), storeUpload reqFile st)))"

section \<open>The service as a transition system\<close>

text \<open>
  One request at a time: the requests that change the state, each with what the
  environment contributes to it (the clock, generated keys, the password hash).
\<close>

datatype request =
    PostEvent jwtPayload eventBody uploadResult int jsstring
  | PutEvent jwtPayload eventBody uploadResult jsstring int
  | DeleteEvent jwtPayload jsstring
  | PostEventRegister jwtPayload jsstring int
  | PostRegister registerBody singleUpload jsstring jsstring
  | PutProfile jwtPayload profileBody singleUpload

fun step :: "runtime \<Rightarrow> env \<Rightarrow> request \<Rightarrow> store \<Rightarrow> store" where
  "step rt ENV (PostEvent usr b up now newId) st = snd (postEvent usr b up now newId st)"
| "step rt ENV (PutEvent usr b up eid now) st = snd (putEvent usr b up eid now st)"
| "step rt ENV (DeleteEvent usr eid) st = snd (deleteEvent usr eid st)"
| "step rt ENV (PostEventRegister usr eid now) st = snd (Register eid (sub usr) now st)"
| "step rt ENV (PostRegister b up newId hash) st = snd (postRegister rt ENV b up newId hash st)"
| "step rt ENV (PutProfile usr b up) st = snd (putProfile rt ENV usr b up st)"

fun run :: "runtime \<Rightarrow> env \<Rightarrow> request list \<Rightarrow> store \<Rightarrow> store" where
  "run rt ENV [] st = st"
| "run rt ENV (r # rs) st = run rt ENV rs (step rt ENV r st)"

section \<open>Notions used in the statements\<close>

subsection \<open>Drafts\<close>

text \<open>The draft has two dates, and the registration deadline is before the start.\<close>

definition draftOrdered :: "eventBody \<Rightarrow> bool" where
  "draftOrdered b =
     (case (time_body b, registrationDeadline_body b) of
        (DateValue t, DateValue d) \<Rightarrow> d < t
      | _ \<Rightarrow> False)"

text \<open>
  What the schema asks of a draft: the five texts are there, not empty and within their
  maximal lengths, both dates are dates, and the attendance limit is a positive integer.
\<close>

definition textOk :: "nat \<Rightarrow> nat \<Rightarrow> jsstring option \<Rightarrow> bool" where
  "textOk lo hi field = (case field of None \<Rightarrow> False | Some v \<Rightarrow> lo \<le> length v \<and> length v \<le> hi)"

definition draftWellFormed :: "eventBody \<Rightarrow> bool" where
  "draftWellFormed b \<longleftrightarrow>
     textOk 1 200 (name_body b) \<and> textOk 1 4000 (description_body b) \<and>
     textOk 1 240 (location_body b) \<and> textOk 1 200 (eventOwner_body b) \<and>
     textOk 1 200 (category_body b) \<and>
     (case (time_body b, registrationDeadline_body b, attendanceLimit_body b) of
        (DateValue t, DateValue d, Integer n) \<Rightarrow> 0 < n
      | _ \<Rightarrow> False)"

text \<open>The three conditions of \<open>validateSchedule\<close> on the dates of a draft.\<close>

definition scheduleOk :: "eventBody \<Rightarrow> int \<Rightarrow> bool" where
  "scheduleOk b now =
     (case (time_body b, registrationDeadline_body b) of
        (DateValue t, DateValue d) \<Rightarrow> d < t \<and> now < t \<and> now < d
      | _ \<Rightarrow> False)"

subsection \<open>Requests\<close>

text \<open>The files that the upload step hands to the handler.\<close>

definition uploadedFiles :: "uploadResult \<Rightarrow> jsstring list" where
  "uploadedFiles up = (case up of Uploaded fs \<Rightarrow> fs | UploadError _ \<Rightarrow> [])"

text \<open>The request is a Create to which the database gives the key \<open>eid\<close>.\<close>

fun createsEvent :: "jsstring \<Rightarrow> request \<Rightarrow> bool" where
  "createsEvent eid (PostEvent usr b up now newId) = (newId = eid)"
| "createsEvent eid _ = False"

text \<open>
  The request is an Update that sets the attendance limit of its event below the number
  of registrations the event has.
\<close>

definition lowersLimit :: "request \<Rightarrow> store \<Rightarrow> bool" where
  "lowersLimit r st =
     (case r of
        PutEvent usr b up eid now \<Rightarrow>
          (case attendanceLimit_body b of
             Integer n \<Rightarrow> n < int (count_ledger eid (registrations st))
           | _ \<Rightarrow> False)
      | _ \<Rightarrow> False)"

text \<open>No request of the sequence, run from the state, is such an Update.\<close>

fun keepsLimits :: "runtime \<Rightarrow> env \<Rightarrow> request list \<Rightarrow> store \<Rightarrow> bool" where
  "keepsLimits rt ENV [] st = True"
| "keepsLimits rt ENV (r # rs) st =
     (\<not> lowersLimit r st \<and> keepsLimits rt ENV rs (step rt ENV r st))"

subsection \<open>Invariants\<close>

text \<open>Every stored event has its registration deadline before its start.\<close>

definition scheduleInv :: "store \<Rightarrow> bool" where
  "scheduleInv st \<longleftrightarrow> (\<forall>eid ev. events st eid = Some ev \<longrightarrow> registrationDeadline ev < startsAt ev)"

text \<open>
  No event has more registrations than its limit, and every registration belongs to a
  stored event.
\<close>

definition capacityInv :: "store \<Rightarrow> bool" where
  "capacityInv st \<longleftrightarrow>
     (\<forall>eid ev. events st eid = Some ev \<longrightarrow>
        int (count_ledger eid (registrations st)) \<le> attendanceLimit ev) \<and>
     (\<forall>r \<in> set (registrations st). reg_eventId r \<in> dom (events st))"

text \<open>No two rows of the \<open>User\<close> table share a key or a university address.\<close>

definition usersInv :: "store \<Rightarrow> bool" where
  "usersInv st \<longleftrightarrow> distinct (map userId (users st)) \<and> distinct (map universityEmail (users st))"

subsection \<open>Concrete requests\<close>

text \<open>
  A runtime that lowers the ASCII letters and takes any text with an at sign for an
  address, the default environment, three users and a draft with its event.
\<close>

definition asciiLower :: "jsstring \<Rightarrow> jsstring" where
  "asciiLower s = map (\<lambda>c. if 0x41 \<le> c \<and> c \<le> 0x5A then c + 0x20 else c) s"

definition demoRuntime :: runtime where
  "demoRuntime = \<lparr>toLowerCase = asciiLower, isEmail = (\<lambda>s. 0x40 \<in> set s)\<rparr>"

definition demoEnv :: env where
  "demoEnv = \<lparr>ALLOWED_EMAIL_DOMAIN = js ''uzh.ch''\<rparr>"

definition alice :: jwtPayload where
  "alice = \<lparr>sub = js ''u1'', email_jwt = js ''alice@uzh.ch'', fullName_jwt = js ''Alice''\<rparr>"

definition bob :: jwtPayload where
  "bob = \<lparr>sub = js ''u2'', email_jwt = js ''bob@uzh.ch'', fullName_jwt = js ''Bob''\<rparr>"

definition carol :: jwtPayload where
  "carol = \<lparr>sub = js ''u3'', email_jwt = js ''carol@uzh.ch'', fullName_jwt = js ''Carol''\<rparr>"

definition demoBody :: "int \<Rightarrow> int \<Rightarrow> int \<Rightarrow> eventBody" where
  "demoBody t d n =
     \<lparr>name_body = Some (js ''Hike''), description_body = Some (js ''Uetliberg''),
      location_body = Some (js ''Zurich''), time_body = DateValue t,
      eventOwner_body = Some (js ''Alice''), category_body = Some (js ''Sport''),
      attendanceLimit_body = Integer n, registrationDeadline_body = DateValue d\<rparr>"

definition demoEvent :: "int \<Rightarrow> int \<Rightarrow> int \<Rightarrow> event" where
  "demoEvent t d n =
     \<lparr>eventId = js ''e1'', name = js ''Hike'', description = js ''Uetliberg'',
      location = js ''Zurich'', startsAt = t, images = stringifyImages [], category = js ''Sport'',
      ownerId = js ''u1'', ownerName = js ''Alice'', attendanceLimit = n,
      registrationDeadline = d\<rparr>"

text \<open>The database after the first user has created the event.\<close>

definition demoStore :: store where
  "demoStore = emptyStore\<lparr>events := [js ''e1'' \<mapsto> demoEvent 20 10 2]\<rparr>"

text \<open>
  The same event after an update with one uploaded image, with a registration of the
  second user and the image file on disk.
\<close>

definition demoEvent2 :: event where
  "demoEvent2 = (demoEvent 30 25 5)\<lparr>images := stringifyImages [imagePathOf (js ''a.png'')]\<rparr>"

definition demoStore2 :: store where
  "demoStore2 =
     \<lparr>events = [js ''e1'' \<mapsto> demoEvent2],
      registrations = [\<lparr>reg_userId = js ''u2'', reg_eventId = js ''e1'', reg_createdAt = 5\<rparr>],
      users = [],
      files = {uploadPath (js ''a.png'')}\<rparr>"

text \<open>The event with both seats taken.\<close>

definition demoStoreFull :: store where
  "demoStoreFull =
     \<lparr>events = [js ''e1'' \<mapsto> demoEvent 20 10 2],
      registrations =
        [\<lparr>reg_userId = js ''u2'', reg_eventId = js ''e1'', reg_createdAt = 5\<rparr>,
         \<lparr>reg_userId = js ''u3'', reg_eventId = js ''e1'', reg_createdAt = 6\<rparr>],
      users = [], files = {}\<rparr>"

text \<open>A registration form with the given university address.\<close>

definition demoRegisterBody :: "jsstring \<Rightarrow> registerBody" where
  "demoRegisterBody e =
     \<lparr>fullName_body = Some (js ''Alice Muster''), password_body = Some (js ''secret1''),
      age_body = Absent, location_rbody = None, fieldOfStudies_body = None,
      universityEmail_body = Some e, interests_body = Missing\<rparr>"

section \<open>The image list survives the storage boundary\<close>

subsection \<open>Hexadecimal escapes\<close>

lemma unat16: "unat (c :: 16 word) < 65536" using unsigned_less[of c] by simp

lemma hexval_hexdigit_upto: "\<forall>n \<in> set [0..<16]. hexval (hexdigit n) = Some n"
  by (simp add: upt_rec hexval_def hexdigit_def)

lemma hexval_hexdigit: "n < 16 \<Longrightarrow> hexval (hexdigit n) = Some n"
  using hexval_hexdigit_upto by simp

lemma nibbles: "((n div 4096 * 16 + n div 256 mod 16) * 16 + n div 16 mod 16) * 16 + n mod 16 = (n::nat)"
proof -
  define a where "a = n div 16"
  define b where "b = a div 16"
  define c where "c = b div 16"
  have a: "n div 16 = a" by (simp add: a_def)
  have b: "n div 256 = b" unfolding b_def a_def by (simp add: div_mult2_eq)
  have c: "n div 4096 = c" unfolding c_def b_def a_def by (simp add: div_mult2_eq)
  have "c * 16 + b mod 16 = b" unfolding c_def by simp
  moreover have "b * 16 + a mod 16 = a" unfolding b_def by simp
  moreover have "a * 16 + n mod 16 = n" unfolding a_def by simp
  ultimately show ?thesis unfolding a b c by simp
qed

lemma hex4_UnicodeEscape:
  "hex4 (hexdigit (unat c div 4096)) (hexdigit (unat c div 256 mod 16))
        (hexdigit (unat c div 16 mod 16)) (hexdigit (unat c mod 16)) = Some c"
proof -
  have "unat c div 4096 < 16" using unat16[of c] by simp
  then have "hex4 (hexdigit (unat c div 4096)) (hexdigit (unat c div 256 mod 16))
        (hexdigit (unat c div 16 mod 16)) (hexdigit (unat c mod 16)) =
        Some (of_nat (((unat c div 4096 * 16 + unat c div 256 mod 16) * 16 + unat c div 16 mod 16) * 16 + unat c mod 16))"
    by (simp add: hex4_def hexval_hexdigit del: of_nat_add of_nat_mult)
  then show ?thesis
    unfolding nibbles by simp
qed

lemma parseChars_UnicodeEscape:
  "parseChars (UnicodeEscape c @ zs) =
     (case parseChars zs of None \<Rightarrow> None | Some (str, r') \<Rightarrow> Some (c # str, r'))"
  by (simp add: UnicodeEscape_def hex4_UnicodeEscape)

lemma surrogate_plain:
  "isLeadingSurrogate c \<or> isTrailingSurrogate c \<Longrightarrow> c \<noteq> 0x22 \<and> c \<noteq> 0x5C \<and> \<not> c < 0x20"
  by (auto simp: isLeadingSurrogate_def isTrailingSurrogate_def word_le_nat_alt word_less_nat_alt)

lemma parseChars_quoteChars: "parseChars (quoteChars s @ 0x22 # r) = Some (s, r)"
proof (induction s rule: quoteChars.induct)
  case 1
  show ?case by simp
next
  case (2 c cs)
  show ?case 
  proof (cases "isLeadingSurrogate c")
    case True
    note lead = this
    then have pl: "c \<noteq> 0x22" "c \<noteq> 0x5C" "\<not> c < 0x20" using surrogate_plain[of c] by simp_all
    then have ne: "c \<noteq> 0x08" "c \<noteq> 0x09" "c \<noteq> 0x0A" "c \<noteq> 0x0C" "c \<noteq> 0x0D" by auto
    show ?thesis
    proof (cases cs)
      case Nil
      then show ?thesis using lead pl ne by (simp add: parseChars_UnicodeEscape)
    next
      case (Cons d ds)
      show ?thesis
      proof (cases "isTrailingSurrogate d")
        case True
        then have pd: "d \<noteq> 0x22" "d \<noteq> 0x5C" "\<not> d < 0x20" using surrogate_plain[of d] by simp_all
        have "parseChars (quoteChars ds @ 0x22 # r) = Some (ds, r)"
          using "2.IH"(9)[OF ne(1) ne(2) ne(3) ne(4) ne(5) pl(1) pl(2) pl(3) lead Cons True] .
        then show ?thesis using lead pl ne Cons True pd by simp
      next
        case False
        have "parseChars (quoteChars cs @ 0x22 # r) = Some (cs, r)"
          using "2.IH"(10)[OF ne(1) ne(2) ne(3) ne(4) ne(5) pl(1) pl(2) pl(3) lead Cons False] .
        then show ?thesis using lead pl ne Cons False by (simp add: parseChars_UnicodeEscape)
      qed
    qed
  next
    case False
    have IH: "parseChars (quoteChars cs @ 0x22 # r) = Some (cs, r)"
      using "2.IH"(1-8,11,12) False by blast
    show ?thesis using False IH
      by (simp add: parseChars_UnicodeEscape simpleEscape_def)
  qed
qed

subsection \<open>Arrays of strings\<close>

lemma skipWs_nonws [simp]: "\<not> isJsonWs c \<Longrightarrow> skipWs (c # cs) = c # cs"
  by (simp add: skipWs_def)

lemma parseValue_QuoteJSONString:
  "parseValue (Suc n) (QuoteJSONString x @ r) = Some (JString x, r)"
  by (simp add: QuoteJSONString_def parseChars_quoteChars)

lemma QuoteJSONString_Cons: "QuoteJSONString x = 0x22 # (quoteChars x @ [0x22])"
  by (simp add: QuoteJSONString_def)

lemma parseElements_joinComma:
  "xs \<noteq> [] \<Longrightarrow> length xs < f \<Longrightarrow>
   parseElements f (joinComma (map QuoteJSONString xs) @ 0x5D # r) = Some (map JString xs, r)"
proof (induction xs arbitrary: f)
  case Nil
  then show ?case by simp
next
  case (Cons x xs)
  from Cons.prems obtain f1 where f: "f = Suc (Suc f1)" and len: "length xs \<le> f1"
    by (cases f; cases "f - 1") auto
  show ?case
  proof (cases xs)
    case Nil
    then show ?thesis
      using parseValue_QuoteJSONString[of f1 x "0x5D # r"]
      by (simp add: f isJsonWs_def)
  next
    case (Cons y ys)
    have IH: "parseElements (Suc f1) (joinComma (map QuoteJSONString xs) @ 0x5D # r) = Some (map JString xs, r)"
      using Cons.IH[of "Suc f1"] Cons len by simp
    have hd: "joinComma (map QuoteJSONString xs) @ 0x5D # r = 0x22 # (quoteChars y @ [0x22] @ (if ys = [] then [] else 0x2C # joinComma (map QuoteJSONString ys)) @ 0x5D # r)"
      using Cons by (cases ys) (simp_all add: QuoteJSONString_Cons)
    have "parseValue (Suc f1) (QuoteJSONString x @ (0x2C # joinComma (map QuoteJSONString xs) @ 0x5D # r)) = Some (JString x, 0x2C # joinComma (map QuoteJSONString xs) @ 0x5D # r)"
      by (rule parseValue_QuoteJSONString)
    moreover have "skipWs (joinComma (map QuoteJSONString xs) @ 0x5D # r) = joinComma (map QuoteJSONString xs) @ 0x5D # r"
      unfolding hd by (simp add: isJsonWs_def)
    ultimately show ?thesis
      using IH Cons by (simp add: f isJsonWs_def)
  qed
qed

lemma length_joinComma: "length xs * 2 \<le> length (joinComma (map QuoteJSONString xs))"
  by (induction xs rule: joinComma.induct) (simp_all add: QuoteJSONString_def)

lemma stringItems_map_JString [simp]: "stringItems (map JString xs) = xs"
  by (induction xs) simp_all

lemma JSON_parse_stringify:
  "JSON_parse (JSON_stringify xs) = Some (JArray (map JString xs))"
proof (cases xs)
  case Nil
  then show ?thesis
    by (simp add: JSON_parse_def JSON_stringify_def isJsonWs_def skipWs_def)
next
  case (Cons y ys)
  define arr where "arr = joinComma (map QuoteJSONString xs)"
  have len: "length xs < length (arr @ [0x5D])"
    using length_joinComma[of xs] Cons by (simp add: arr_def)
  obtain b where hd: "arr = 0x22 # b"
    unfolding arr_def using Cons by (cases ys) (simp_all add: QuoteJSONString_Cons)
  have pe: "parseElements (length (arr @ [0x5D])) (arr @ 0x5D # []) = Some (map JString xs, [])"
    unfolding arr_def using Cons len
    by (intro parseElements_joinComma) (simp_all add: arr_def)
  have pe': "parseElements (Suc (Suc (length b))) (0x22 # b @ [0x5D]) = Some (map JString xs, [])"
    using pe unfolding hd by simp
  have "parseValue (Suc (Suc (Suc (length b)))) (0x5B # 0x22 # b @ [0x5D]) = Some (JArray (map JString xs), [])"
    using pe' by (simp add: isJsonWs_def del: parseElements.simps)
  then show ?thesis
    by (simp add: JSON_parse_def JSON_stringify_def isJsonWs_def skipWs_def arr_def[symmetric] hd
             del: parseValue.simps)
qed

lemma parseImages_stringifyImages_id: "parseImages (stringifyImages xs) = xs"
  by (simp add: parseImages_def stringifyImages_def JSON_parse_stringify)
     (simp add: JSON_stringify_def)

text \<open>
  C10: for every list of strings, parsing the stored text that \<open>stringify\<close> makes of it
  gives the list back, code unit by code unit and in order; and parsing the empty text
  gives the empty list.
\<close>

theorem eventImageStorage_roundtrip:
  "parseImages (stringifyImages xs) = xs \<and> parseImages [] = []"
  by (simp add: parseImages_stringifyImages_id) (simp add: parseImages_def)

section \<open>Effects of the handlers on the tables\<close>

lemma validateSchedule_None:
  "validateSchedule t d now = None \<longleftrightarrow> now < t \<and> now < d \<and> d < t"
  by (auto simp: validateSchedule_def)

lemma events_cleanupFiles [simp]: "events (cleanupFiles fs st) = events st"
  by (simp add: cleanupFiles_def)

lemma events_storeUploads [simp]: "events (storeUploads fs st) = events st"
  by (simp add: storeUploads_def)

lemma events_deleteStoredImageFiles [simp]: "events (deleteStoredImageFiles ps st) = events st"
  by (simp add: deleteStoredImageFiles_def)

lemma events_unlinkUpload [simp]: "events (unlinkUpload f st) = events st"
  by (simp add: unlinkUpload_def split: option.splits)

lemma events_storeUpload [simp]: "events (storeUpload f st) = events st"
  by (simp add: storeUpload_def split: option.splits)

lemma createEventSchema_Some:
  "createEventSchema b = Some d \<Longrightarrow>
     time_body b = DateValue (time_data d) \<and>
     registrationDeadline_body b = DateValue (registrationDeadline_data d) \<and>
     attendanceLimit_body b = Integer (attendanceLimit_data d) \<and> 0 < attendanceLimit_data d"
  by (auto simp: createEventSchema_def zDate_def zPositiveInt_def
           split: option.splits dateInput.splits numericInput.splits if_splits)

lemma postEvent_events:
  "events (snd (postEvent usr b up now newId st)) = events st \<or>
   (\<exists>ev. events (snd (postEvent usr b up now newId st)) = (events st)(newId \<mapsto> ev) \<and>
      registrationDeadline ev < startsAt ev \<and> now < registrationDeadline ev \<and>
      0 < attendanceLimit ev \<and> newId \<notin> dom (events st) \<and> eventId ev = newId \<and>
      time_body b = DateValue (startsAt ev) \<and>
      registrationDeadline_body b = DateValue (registrationDeadline ev) \<and>
      attendanceLimit_body b = Integer (attendanceLimit ev))"
  by (auto simp: postEvent_def handleCreateEvent_def prisma_event_create_def Let_def
                 validateSchedule_None dest!: createEventSchema_Some
           split: uploadResult.splits option.splits sum.splits if_splits)

lemma registrations_cleanupFiles [simp]: "registrations (cleanupFiles fs st) = registrations st"
  by (simp add: cleanupFiles_def)

lemma registrations_storeUploads [simp]: "registrations (storeUploads fs st) = registrations st"
  by (simp add: storeUploads_def)

lemma registrations_deleteStoredImageFiles [simp]:
  "registrations (deleteStoredImageFiles ps st) = registrations st"
  by (simp add: deleteStoredImageFiles_def)

lemma registrations_unlinkUpload [simp]: "registrations (unlinkUpload f st) = registrations st"
  by (simp add: unlinkUpload_def split: option.splits)

lemma registrations_storeUpload [simp]: "registrations (storeUpload f st) = registrations st"
  by (simp add: storeUpload_def split: option.splits)

lemma postEvent_registrations [simp]:
  "registrations (snd (postEvent usr b up now newId st)) = registrations st"
  by (auto simp: postEvent_def handleCreateEvent_def prisma_event_create_def Let_def
           split: uploadResult.splits option.splits sum.splits if_splits)

lemma putEvent_registrations [simp]:
  "registrations (snd (putEvent usr b up eid now st)) = registrations st"
  by (auto simp: putEvent_def handleUpdateEvent_def Let_def
           split: uploadResult.splits option.splits if_splits)

lemma putEvent_events:
  "events (snd (putEvent usr b up eid now st)) = events st \<or>
   (\<exists>old new. events st eid = Some old \<and>
      events (snd (putEvent usr b up eid now st)) = (events st)(eid \<mapsto> new) \<and>
      registrationDeadline new < startsAt new \<and>
      attendanceLimit_body b = Integer (attendanceLimit new))"
  by (auto simp: putEvent_def handleUpdateEvent_def updateEventSchema_def Let_def
                 validateSchedule_None dest!: createEventSchema_Some
           split: uploadResult.splits option.splits if_splits)

lemma deleteEvent_effect:
  "(events (snd (deleteEvent usr eid st)) = events st \<and>
    registrations (snd (deleteEvent usr eid st)) = registrations st) \<or>
   (events (snd (deleteEvent usr eid st)) = (events st)(eid := None) \<and>
    registrations (snd (deleteEvent usr eid st)) = deleteAllForEvent eid (registrations st))"
  by (auto simp: deleteEvent_def prisma_event_delete_def split: option.splits)

lemma Register_events [simp]: "events (snd (Register eid uid now st)) = events st"
  by (auto simp: Register_def split: option.splits)

lemma users_postEvent [simp]: "users (snd (postEvent usr b up now newId st)) = users st"
  by (auto simp: postEvent_def handleCreateEvent_def prisma_event_create_def Let_def
             cleanupFiles_def storeUploads_def
           split: uploadResult.splits option.splits sum.splits if_splits)

lemma users_putEvent [simp]: "users (snd (putEvent usr b up eid now st)) = users st"
  by (auto simp: putEvent_def handleUpdateEvent_def Let_def cleanupFiles_def storeUploads_def
               deleteStoredImageFiles_def
           split: uploadResult.splits option.splits if_splits)

lemma users_deleteEvent [simp]: "users (snd (deleteEvent usr eid st)) = users st"
  by (auto simp: deleteEvent_def prisma_event_delete_def deleteStoredImageFiles_def
           split: option.splits)

lemma users_Register [simp]: "users (snd (Register eid uid now st)) = users st"
  by (auto simp: Register_def split: option.splits)

lemma postRegister_events [simp]:
  "events (snd (postRegister rt ENV b up newId hash st)) = events st"
  by (auto simp: postRegister_def handleRegister_def prisma_user_create_def Let_def
           split: singleUpload.splits option.splits sum.splits if_splits)

lemma postRegister_registrations [simp]:
  "registrations (snd (postRegister rt ENV b up newId hash st)) = registrations st"
  by (auto simp: postRegister_def handleRegister_def prisma_user_create_def Let_def
           split: singleUpload.splits option.splits sum.splits if_splits)

lemma putProfile_events [simp]:
  "events (snd (putProfile rt ENV usr b up st)) = events st"
  by (auto simp: putProfile_def handleProfileUpdate_def prisma_user_update_def Let_def
           split: singleUpload.splits option.splits sum.splits if_splits)

lemma putProfile_registrations [simp]:
  "registrations (snd (putProfile rt ENV usr b up st)) = registrations st"
  by (auto simp: putProfile_def handleProfileUpdate_def prisma_user_update_def Let_def
           split: singleUpload.splits option.splits sum.splits if_splits)

section \<open>Creating and updating events\<close>

subsection \<open>The schema and the schedule\<close>

lemma createEventSchema_None_iff: "createEventSchema b = None \<longleftrightarrow> \<not> draftWellFormed b"
  by (auto simp: createEventSchema_def draftWellFormed_def zString_def textOk_def zDate_def
                 zPositiveInt_def
           split: option.splits dateInput.splits numericInput.splits if_splits)

lemma validateSchedule_scheduleOk:
  "createEventSchema b = Some d \<Longrightarrow>
     validateSchedule (time_data d) (registrationDeadline_data d) now = None \<longleftrightarrow> scheduleOk b now"
  by (auto simp: scheduleOk_def validateSchedule_None dest!: createEventSchema_Some)

lemma postEvent_status_201:
  "status (fst (postEvent usr b (Uploaded fs) now newId st)) = 201 \<longleftrightarrow>
     draftWellFormed b \<and> scheduleOk b now \<and> newId \<notin> dom (events st)"
proof (cases "createEventSchema b")
  case None
  then show ?thesis
    using createEventSchema_None_iff[of b]
    by (simp add: postEvent_def handleCreateEvent_def respond_def)
next
  case (Some d)
  then have wf: "draftWellFormed b" using createEventSchema_None_iff[of b] by simp
  show ?thesis
    using Some wf validateSchedule_scheduleOk[OF Some, of now]
    by (auto simp: postEvent_def handleCreateEvent_def respond_def prisma_event_create_def Let_def
             split: option.splits)
qed

lemma postEvent_rejected:
  "\<not> (draftWellFormed b \<and> scheduleOk b now) \<Longrightarrow>
     status (fst (postEvent usr b up now newId st)) = 400 \<and>
     events (snd (postEvent usr b up now newId st)) = events st"
proof (cases "createEventSchema b")
  case None
  then show ?thesis
    by (simp add: postEvent_def handleCreateEvent_def respond_def split: uploadResult.splits)
next
  case (Some d)
  assume "\<not> (draftWellFormed b \<and> scheduleOk b now)"
  then have "\<not> scheduleOk b now" using Some createEventSchema_None_iff[of b] by auto
  then have "validateSchedule (time_data d) (registrationDeadline_data d) now \<noteq> None"
    using validateSchedule_scheduleOk[OF Some, of now] by simp
  then show ?thesis using Some
    by (auto simp: postEvent_def handleCreateEvent_def respond_def split: uploadResult.splits)
qed

lemma postEvent_created:
  "status (fst (postEvent usr b up now newId st)) = 201 \<Longrightarrow>
     newId \<notin> dom (events st) \<and>
     map_option eventId (events (snd (postEvent usr b up now newId st)) newId) = Some newId \<and>
     map_option ownerId (events (snd (postEvent usr b up now newId st)) newId) = Some (sub usr) \<and>
     (\<forall>k. k \<noteq> newId \<longrightarrow> events (snd (postEvent usr b up now newId st)) k = events st k)"
  by (auto simp: postEvent_def handleCreateEvent_def respond_def prisma_event_create_def Let_def
           split: uploadResult.splits option.splits sum.splits if_splits)

lemma postEvent_not_created:
  "status (fst (postEvent usr b up now newId st)) \<noteq> 201 \<Longrightarrow>
     events (snd (postEvent usr b up now newId st)) = events st"
  by (auto simp: postEvent_def handleCreateEvent_def respond_def prisma_event_create_def Let_def
           split: uploadResult.splits option.splits sum.splits if_splits)

subsection \<open>Deadline before start\<close>

lemma scheduleInv_step: "scheduleInv st \<Longrightarrow> scheduleInv (step rt ENV r st)"
proof (cases r)
  case (PostEvent usr b up now newId)
  assume "scheduleInv st"
  then show ?thesis
    using postEvent_events[of usr b up now newId st] PostEvent
    by (auto simp: scheduleInv_def split: if_splits)
next
  case (PutEvent usr b up eid now)
  assume "scheduleInv st"
  then show ?thesis
    using putEvent_events[of usr b up eid now st] PutEvent
    by (auto simp: scheduleInv_def split: if_splits)
next
  case (DeleteEvent usr eid)
  assume "scheduleInv st"
  then show ?thesis
    using deleteEvent_effect[of usr eid st] DeleteEvent
    by (auto simp: scheduleInv_def split: if_splits)
qed (simp_all add: scheduleInv_def)

lemma scheduleInv_run: "scheduleInv st \<Longrightarrow> scheduleInv (run rt ENV rs st)"
  by (induction rs arbitrary: st) (simp_all add: scheduleInv_step)

lemma postEvent_unordered:
  "\<not> draftOrdered b \<Longrightarrow>
     status (fst (postEvent usr b up now newId st)) = 400 \<and>
     events (snd (postEvent usr b up now newId st)) = events st"
  by (auto simp: draftOrdered_def postEvent_def handleCreateEvent_def respond_def
                 validateSchedule_def
           dest!: createEventSchema_Some
           split: uploadResult.splits option.splits sum.splits dateInput.splits if_splits)

lemma putEvent_unordered:
  "\<not> draftOrdered b \<Longrightarrow>
     status (fst (putEvent usr b up eid now st)) \<in> {400, 403, 404} \<and>
     events (snd (putEvent usr b up eid now st)) = events st"
  by (auto simp: draftOrdered_def putEvent_def handleUpdateEvent_def respond_def
                 validateSchedule_def updateEventSchema_def
           dest!: createEventSchema_Some
           split: uploadResult.splits option.splits sum.splits dateInput.splits if_splits)

text \<open>
  C4: in every state that the service reaches from the empty database, every stored event
  has its registration deadline before its start; and a Create or an Update whose draft
  does not have the deadline before the start is rejected (400 for Create; 400, 403 or 404
  for Update) and leaves the event table as it was.
\<close>

theorem schedule_order_kept:
  "(events (run rt ENV rs emptyStore) eid = Some ev \<longrightarrow> registrationDeadline ev < startsAt ev) \<and>
   (\<not> draftOrdered b \<longrightarrow>
      status (fst (postEvent usr b up now newId st)) = 400 \<and>
      events (snd (postEvent usr b up now newId st)) = events st) \<and>
   (\<not> draftOrdered b \<longrightarrow>
      status (fst (putEvent usr b up eid' now st)) \<in> {400, 403, 404} \<and>
      events (snd (putEvent usr b up eid' now st)) = events st)"
proof -
  have "scheduleInv emptyStore" by (simp add: scheduleInv_def emptyStore_def)
  then have "scheduleInv (run rt ENV rs emptyStore)" by (rule scheduleInv_run)
  then show ?thesis
    using postEvent_unordered[of b usr up now newId st] putEvent_unordered[of b usr up eid' now st]
    by (simp add: scheduleInv_def)
qed

lemma demo_created:
  "postEvent alice (demoBody 20 10 2) (Uploaded []) 0 (js ''e1'') emptyStore =
     (respond 201 (EventBody ''Event created successfully'' (toPublicEvent (demoEvent 20 10 2))),
      emptyStore\<lparr>events := [js ''e1'' \<mapsto> demoEvent 20 10 2]\<rparr>)"
  by (simp add: postEvent_def handleCreateEvent_def createEventSchema_def zString_def zDate_def
        zPositiveInt_def validateSchedule_def demoBody_def demoEvent_def alice_def Let_def
        firstNonEmpty_def trim_def isJsSpace_def js_def prisma_event_create_def emptyStore_def
        storeUploads_def)

theorem schedule_order_kept_witness:
  "events (run demoRuntime demoEnv
             [PostEvent alice (demoBody 20 10 2) (Uploaded []) 0 (js ''e1'')] emptyStore)
          (js ''e1'') = Some (demoEvent 20 10 2) \<and>
   registrationDeadline (demoEvent 20 10 2) < startsAt (demoEvent 20 10 2) \<and>
   \<not> draftOrdered (demoBody 10 20 2) \<and>
   status (fst (postEvent alice (demoBody 10 20 2) (Uploaded []) 0 (js ''e2'') emptyStore)) = 400 \<and>
   events (snd (postEvent alice (demoBody 10 20 2) (Uploaded []) 0 (js ''e2'') emptyStore)) =
     events emptyStore \<and>
   status (fst (putEvent alice (demoBody 10 20 2) (Uploaded []) (js ''e1'') 0 emptyStore))
     \<in> {400, 403, 404} \<and>
   events (snd (putEvent alice (demoBody 10 20 2) (Uploaded []) (js ''e1'') 0 emptyStore)) =
     events emptyStore"
proof -
  have ev: "events (run demoRuntime demoEnv
             [PostEvent alice (demoBody 20 10 2) (Uploaded []) 0 (js ''e1'')] emptyStore)
          (js ''e1'') = Some (demoEvent 20 10 2)"
    by (simp add: demo_created)
  have un: "\<not> draftOrdered (demoBody 10 20 2)"
    by (simp add: draftOrdered_def demoBody_def)
  show ?thesis
    using schedule_order_kept[of demoRuntime demoEnv
            "[PostEvent alice (demoBody 20 10 2) (Uploaded []) 0 (js ''e1'')]" "js ''e1''"
            "demoEvent 20 10 2" "demoBody 10 20 2" alice "Uploaded []" 0 "js ''e2''" emptyStore
            "js ''e1''"] ev un
    by simp
qed

subsection \<open>Create\<close>

text \<open>
  C5, amended: once the upload step has passed, a new event is created (201) exactly when
  the draft passes the schema, its dates satisfy \<open>registrationDeadline < startsAt\<close>,
  \<open>startsAt > now\<close> and \<open>registrationDeadline > now\<close>, and the generated key is unused.
  A created event is stored under the new key with the caller as its owner and no other
  row changes; a call that does not answer 201 leaves the event table as it was; and a
  draft that fails the schema or the schedule is answered with 400.
\<close>

theorem create_event_exactly_when:
  "(status (fst (postEvent usr b (Uploaded fs) now newId st)) = 201 \<longleftrightarrow>
      draftWellFormed b \<and> scheduleOk b now \<and> newId \<notin> dom (events st)) \<and>
   (status (fst (postEvent usr b up now newId st)) = 201 \<longrightarrow>
      newId \<notin> dom (events st) \<and>
      map_option eventId (events (snd (postEvent usr b up now newId st)) newId) = Some newId \<and>
      map_option ownerId (events (snd (postEvent usr b up now newId st)) newId) = Some (sub usr) \<and>
      (\<forall>k. k \<noteq> newId \<longrightarrow> events (snd (postEvent usr b up now newId st)) k = events st k)) \<and>
   (status (fst (postEvent usr b up now newId st)) \<noteq> 201 \<longrightarrow>
      events (snd (postEvent usr b up now newId st)) = events st) \<and>
   (\<not> (draftWellFormed b \<and> scheduleOk b now) \<longrightarrow>
      status (fst (postEvent usr b up now newId st)) = 400)"
  using postEvent_status_201[of usr b fs now newId st] postEvent_created[of usr b up now newId st]
    postEvent_not_created[of usr b up now newId st] postEvent_rejected[of b now usr up newId st]
  by blast

text \<open>
  C5 as stated fails: a draft with an empty name meets the four conditions of the claim
  (deadline 10 before start 20, both after now = 0, limit 2) and is answered with 400.
\<close>

theorem create_event_counterexample:
  "time_body ((demoBody 20 10 2)\<lparr>name_body := Some []\<rparr>) = DateValue 20 \<and>
   registrationDeadline_body ((demoBody 20 10 2)\<lparr>name_body := Some []\<rparr>) = DateValue 10 \<and>
   attendanceLimit_body ((demoBody 20 10 2)\<lparr>name_body := Some []\<rparr>) = Integer 2 \<and>
   (10::int) < 20 \<and> (20::int) > 0 \<and> (10::int) > 0 \<and> (2::int) > 0 \<and>
   postEvent alice ((demoBody 20 10 2)\<lparr>name_body := Some []\<rparr>) (Uploaded []) 0 (js ''e1'')
     emptyStore = (respond 400 InvalidInput, emptyStore)"
  by (simp add: postEvent_def handleCreateEvent_def createEventSchema_def zString_def zDate_def
        zPositiveInt_def demoBody_def emptyStore_def storeUploads_def cleanupFiles_def)

theorem create_event_exactly_when_witness:
  "draftWellFormed (demoBody 20 10 2) \<and> scheduleOk (demoBody 20 10 2) 0 \<and>
   js ''e1'' \<notin> dom (events emptyStore) \<and>
   status (fst (postEvent alice (demoBody 20 10 2) (Uploaded []) 0 (js ''e1'') emptyStore)) = 201 \<and>
   map_option ownerId
     (events (snd (postEvent alice (demoBody 20 10 2) (Uploaded []) 0 (js ''e1'') emptyStore))
        (js ''e1'')) = Some (sub alice) \<and>
   \<not> (draftWellFormed (demoBody 10 20 2) \<and> scheduleOk (demoBody 10 20 2) 0) \<and>
   status (fst (postEvent alice (demoBody 10 20 2) (Uploaded []) 0 (js ''e1'') emptyStore)) = 400 \<and>
   events (snd (postEvent alice (demoBody 10 20 2) (Uploaded []) 0 (js ''e1'') emptyStore)) =
     events emptyStore"
proof -
  have wf: "draftWellFormed (demoBody 20 10 2)"
    by (simp add: draftWellFormed_def textOk_def demoBody_def js_def)
  have ok: "scheduleOk (demoBody 20 10 2) 0"
    by (simp add: scheduleOk_def demoBody_def)
  have fresh: "js ''e1'' \<notin> dom (events emptyStore)"
    by (simp add: emptyStore_def)
  have bad: "\<not> scheduleOk (demoBody 10 20 2) 0"
    by (simp add: scheduleOk_def demoBody_def)
  show ?thesis
    using create_event_exactly_when[of alice "demoBody 20 10 2" "[]" 0 "js ''e1''" emptyStore "Uploaded []"]
      create_event_exactly_when[of alice "demoBody 10 20 2" "[]" 0 "js ''e1''" emptyStore "Uploaded []"]
      wf ok fresh bad
    by simp
qed

subsection \<open>Update by someone who is not the owner\<close>

lemma updateEventSchema_None_iff: "updateEventSchema b = None \<longleftrightarrow> \<not> draftWellFormed b"
  by (simp add: updateEventSchema_def createEventSchema_None_iff)

lemma putEvent_non_owner:
  assumes "events st eid = Some ev" and "ownerId ev \<noteq> sub usr" and "eid \<noteq> []"
  shows "status (fst (putEvent usr b (Uploaded fs) eid now st)) = (if draftWellFormed b then 403 else 400)"
    and "status (fst (putEvent usr b (UploadError msg) eid now st)) = 400"
    and "events (snd (putEvent usr b up eid now st)) = events st"
  using assms updateEventSchema_None_iff[of b]
  by (auto simp: putEvent_def handleUpdateEvent_def respond_def
           split: uploadResult.splits option.splits)

text \<open>
  C6, amended: an Update of an existing event (addressed by its non-empty key) by a caller
  who is not its owner fails with 403 when the request has passed the upload step and its
  body passes the schema, and with 400 otherwise, since both are checked before the
  owner; in every case the event table, and so the stored record, is unchanged.
\<close>

theorem update_by_non_owner:
  assumes "events st eid = Some ev" and "ownerId ev \<noteq> sub usr" and "eid \<noteq> []"
  shows "status (fst (putEvent usr b (Uploaded fs) eid now st)) =
           (if draftWellFormed b then 403 else 400) \<and>
         status (fst (putEvent usr b (UploadError msg) eid now st)) = 400 \<and>
         events (snd (putEvent usr b up eid now st)) = events st \<and>
         events (snd (putEvent usr b up eid now st)) eid = Some ev"
  using putEvent_non_owner[OF assms] assms(1) by simp

lemma demoStore_reached:
  "run demoRuntime demoEnv [PostEvent alice (demoBody 20 10 2) (Uploaded []) 0 (js ''e1'')] emptyStore
     = demoStore"
  by (simp add: demo_created demoStore_def)

text \<open>
  C6 as stated fails: the second user is not the owner of the stored event, sends a draft
  with an empty name, and is answered with 400, not 403.
\<close>

theorem update_by_non_owner_counterexample:
  "run demoRuntime demoEnv [PostEvent alice (demoBody 20 10 2) (Uploaded []) 0 (js ''e1'')] emptyStore
     = demoStore \<and>
   events demoStore (js ''e1'') = Some (demoEvent 20 10 2) \<and>
   ownerId (demoEvent 20 10 2) \<noteq> sub bob \<and>
   status (fst (putEvent bob ((demoBody 20 10 2)\<lparr>name_body := Some []\<rparr>) (Uploaded [])
                  (js ''e1'') 0 demoStore)) = 400"
proof -
  have "events demoStore (js ''e1'') = Some (demoEvent 20 10 2) \<and>
   ownerId (demoEvent 20 10 2) \<noteq> sub bob \<and>
   status (fst (putEvent bob ((demoBody 20 10 2)\<lparr>name_body := Some []\<rparr>) (Uploaded [])
                  (js ''e1'') 0 demoStore)) = 400"
    by (simp add: putEvent_def handleUpdateEvent_def updateEventSchema_def createEventSchema_def
          zString_def zDate_def zPositiveInt_def demoBody_def demoStore_def demoEvent_def bob_def
          emptyStore_def storeUploads_def cleanupFiles_def respond_def js_def)
  then show ?thesis using demoStore_reached by simp
qed

theorem update_by_non_owner_witness:
  "events demoStore (js ''e1'') = Some (demoEvent 20 10 2) \<and>
   ownerId (demoEvent 20 10 2) \<noteq> sub bob \<and> js ''e1'' \<noteq> [] \<and>
   draftWellFormed (demoBody 30 25 5) \<and>
   status (fst (putEvent bob (demoBody 30 25 5) (Uploaded []) (js ''e1'') 0 demoStore)) = 403 \<and>
   events (snd (putEvent bob (demoBody 30 25 5) (Uploaded []) (js ''e1'') 0 demoStore)) (js ''e1'')
     = Some (demoEvent 20 10 2)"
proof -
  have a: "events demoStore (js ''e1'') = Some (demoEvent 20 10 2)"
    by (simp add: demoStore_def emptyStore_def)
  have b: "ownerId (demoEvent 20 10 2) \<noteq> sub bob"
    by (simp add: demoEvent_def bob_def js_def)
  have c: "js ''e1'' \<noteq> []" by (simp add: js_def)
  have wf: "draftWellFormed (demoBody 30 25 5)"
    by (simp add: draftWellFormed_def textOk_def demoBody_def js_def)
  show ?thesis
    using update_by_non_owner[OF a b c, of "demoBody 30 25 5" "[]" 0 "''x''" "Uploaded []"] a b c wf
    by simp
qed

subsection \<open>Images of an updated event\<close>

lemma putEvent_images:
  assumes "status (fst (putEvent usr b up eid now st)) = 200"
  shows "events st eid \<noteq> None"
    and "map_option (\<lambda>e. parseImages (images e)) (events (snd (putEvent usr b up eid now st)) eid) =
           (if uploadedFiles up = [] then map_option (\<lambda>e. parseImages (images e)) (events st eid)
            else Some (map imagePathOf (uploadedFiles up)))"
  using assms
  by (auto simp: putEvent_def handleUpdateEvent_def respond_def uploadedFiles_def Let_def
                 parseImages_stringifyImages_id deleteStoredImageFiles_def
           split: uploadResult.splits option.splits if_splits)

text \<open>
  C8: after every successful Update (200) the image list of the stored event, read
  through \<open>parse\<close>, is the list of the new images when the request has uploaded files,
  and the list it was before when the request has none.
\<close>

theorem update_replaces_or_keeps_images:
  assumes "status (fst (putEvent usr b up eid now st)) = 200"
  shows "events st eid \<noteq> None \<and>
         map_option (\<lambda>e. parseImages (images e)) (events (snd (putEvent usr b up eid now st)) eid) =
           (if uploadedFiles up = [] then map_option (\<lambda>e. parseImages (images e)) (events st eid)
            else Some (map imagePathOf (uploadedFiles up)))"
  using putEvent_images[OF assms] by simp

lemma demo_update_upload:
  "putEvent alice (demoBody 30 25 5) (Uploaded [js ''a.png'']) (js ''e1'') 0 demoStore =
     (respond 200 (EventBody ''Event updated successfully'' (toPublicEvent demoEvent2)),
      demoStore2\<lparr>registrations := []\<rparr>)"
  by (simp add: putEvent_def handleUpdateEvent_def updateEventSchema_def createEventSchema_def
        zString_def zDate_def zPositiveInt_def validateSchedule_def demoBody_def demoEvent_def
        demoEvent2_def demoStore_def demoStore2_def alice_def Let_def firstNonEmpty_def trim_def
        isJsSpace_def emptyStore_def storeUploads_def deleteStoredImageFiles_def
        parseImages_stringifyImages_id js_def)

lemma demo_update_keep:
  "putEvent alice (demoBody 30 25 5) (Uploaded []) (js ''e1'') 0 demoStore2 =
     (respond 200 (EventBody ''Event updated successfully'' (toPublicEvent demoEvent2)),
      demoStore2)"
  by (simp add: putEvent_def handleUpdateEvent_def updateEventSchema_def createEventSchema_def
        zString_def zDate_def zPositiveInt_def validateSchedule_def demoBody_def demoEvent_def
        demoEvent2_def demoStore2_def alice_def Let_def firstNonEmpty_def trim_def
        isJsSpace_def storeUploads_def parseImages_stringifyImages_id js_def)

theorem update_replaces_or_keeps_images_witness:
  "status (fst (putEvent alice (demoBody 30 25 5) (Uploaded [js ''a.png'']) (js ''e1'') 0 demoStore))
     = 200 \<and>
   map_option (\<lambda>e. parseImages (images e)) (events demoStore (js ''e1'')) = Some [] \<and>
   map_option (\<lambda>e. parseImages (images e))
     (events (snd (putEvent alice (demoBody 30 25 5) (Uploaded [js ''a.png'']) (js ''e1'') 0
        demoStore)) (js ''e1'')) = Some [js ''/uploads/event-images/a.png''] \<and>
   status (fst (putEvent alice (demoBody 30 25 5) (Uploaded []) (js ''e1'') 0 demoStore2)) = 200 \<and>
   map_option (\<lambda>e. parseImages (images e))
     (events (snd (putEvent alice (demoBody 30 25 5) (Uploaded []) (js ''e1'') 0 demoStore2))
        (js ''e1'')) = Some [js ''/uploads/event-images/a.png'']"
proof -
  have s1: "status (fst (putEvent alice (demoBody 30 25 5) (Uploaded [js ''a.png'']) (js ''e1'') 0
              demoStore)) = 200"
    by (simp add: demo_update_upload respond_def)
  have s2: "status (fst (putEvent alice (demoBody 30 25 5) (Uploaded []) (js ''e1'') 0 demoStore2))
              = 200"
    by (simp add: demo_update_keep respond_def)
  have old1: "map_option (\<lambda>e. parseImages (images e)) (events demoStore (js ''e1'')) = Some []"
    by (simp add: demoStore_def demoEvent_def emptyStore_def parseImages_stringifyImages_id)
  have old2: "map_option (\<lambda>e. parseImages (images e)) (events demoStore2 (js ''e1''))
                = Some [js ''/uploads/event-images/a.png'']"
    by (simp add: demoStore2_def demoEvent2_def parseImages_stringifyImages_id imagePathOf_def)
       (simp add: js_def)
  have p: "imagePathOf (js ''a.png'') = js ''/uploads/event-images/a.png''"
    by (simp add: imagePathOf_def js_def)
  show ?thesis
    using update_replaces_or_keeps_images[OF s1] update_replaces_or_keeps_images[OF s2]
      s1 s2 old1 old2 p
    by (simp add: uploadedFiles_def)
qed

section \<open>Deleting an event\<close>

lemma events_None_step:
  "events st eid = None \<Longrightarrow> \<not> createsEvent eid r \<Longrightarrow> events (step rt ENV r st) eid = None"
proof (cases r)
  case (PostEvent usr b up now newId)
  assume "events st eid = None" "\<not> createsEvent eid r"
  then show ?thesis using PostEvent postEvent_events[of usr b up now newId st] by auto
next
  case (PutEvent usr b up eid' now)
  assume "events st eid = None"
  then show ?thesis using PutEvent putEvent_events[of usr b up eid' now st] by auto
next
  case (DeleteEvent usr eid')
  assume "events st eid = None"
  then show ?thesis using DeleteEvent deleteEvent_effect[of usr eid' st] by auto
qed simp_all

lemma events_None_run:
  "events st eid = None \<Longrightarrow> \<forall>r \<in> set rs. \<not> createsEvent eid r \<Longrightarrow>
     events (run rt ENV rs st) eid = None"
  by (induction rs arbitrary: st) (simp_all add: events_None_step)

lemma getEvent_404: "eid \<noteq> [] \<Longrightarrow> events st eid = None \<Longrightarrow> status (getEvent eid st) = 404"
  by (simp add: getEvent_def respond_def)

lemma deleteEvent_status:
  "events st eid = Some ev \<Longrightarrow>
     status (fst (deleteEvent usr eid st)) = 204 \<longleftrightarrow> eid \<noteq> [] \<and> ownerId ev = sub usr"
  by (simp add: deleteEvent_def respond_def)

lemma deleteEvent_success:
  assumes "events st eid = Some ev" and "status (fst (deleteEvent usr eid st)) = 204"
  shows "snd (deleteEvent usr eid st) =
           deleteStoredImageFiles (parseImages (images ev)) (prisma_event_delete eid st)"
    and "eid \<noteq> []"
  using assms by (auto simp: deleteEvent_def respond_def split: if_splits)

text \<open>
  C7: a Delete of a stored event succeeds (204) exactly for its owner, and then the event
  row is gone, the ledger holds no registration for the event, the file of every stored
  image reference is unlinked, and Get answers 404, at once and after any further
  requests, as long as the database gives the key to no new event.
\<close>

theorem delete_removes_event:
  assumes "events st eid = Some ev"
  shows "(status (fst (deleteEvent usr eid st)) = 204 \<longleftrightarrow> eid \<noteq> [] \<and> ownerId ev = sub usr) \<and>
         (status (fst (deleteEvent usr eid st)) = 204 \<longrightarrow>
            events (snd (deleteEvent usr eid st)) eid = None \<and>
            (\<forall>r \<in> set (registrations (snd (deleteEvent usr eid st))). reg_eventId r \<noteq> eid) \<and>
            (\<forall>p \<in> set (parseImages (images ev)).
               stripLeadingSlash p \<notin> files (snd (deleteEvent usr eid st))) \<and>
            status (getEvent eid (snd (deleteEvent usr eid st))) = 404 \<and>
            (\<forall>rs. (\<forall>r \<in> set rs. \<not> createsEvent eid r) \<longrightarrow>
               status (getEvent eid (run rt ENV rs (snd (deleteEvent usr eid st)))) = 404))"
proof (intro conjI impI)
  show "status (fst (deleteEvent usr eid st)) = 204 \<longleftrightarrow> eid \<noteq> [] \<and> ownerId ev = sub usr"
    using assms by (rule deleteEvent_status)
next
  assume ok: "status (fst (deleteEvent usr eid st)) = 204"
  note eq = deleteEvent_success(1)[OF assms ok]
  note ne = deleteEvent_success(2)[OF assms ok]
  show gone: "events (snd (deleteEvent usr eid st)) eid = None"
    by (simp add: eq prisma_event_delete_def)
  show "\<forall>r \<in> set (registrations (snd (deleteEvent usr eid st))). reg_eventId r \<noteq> eid"
    by (simp add: eq prisma_event_delete_def deleteAllForEvent_def)
  show "\<forall>p \<in> set (parseImages (images ev)).
          stripLeadingSlash p \<notin> files (snd (deleteEvent usr eid st))"
    by (simp add: eq deleteStoredImageFiles_def)
  show "status (getEvent eid (snd (deleteEvent usr eid st))) = 404"
    using ne gone by (rule getEvent_404)
  show "\<forall>rs. (\<forall>r \<in> set rs. \<not> createsEvent eid r) \<longrightarrow>
          status (getEvent eid (run rt ENV rs (snd (deleteEvent usr eid st)))) = 404"
    using ne gone by (auto intro!: getEvent_404 events_None_run)
qed

lemma demo_delete:
  "deleteEvent alice (js ''e1'') demoStore2 = (respond 204 NoBody, emptyStore)"
  by (simp add: deleteEvent_def demoStore2_def demoEvent2_def demoEvent_def alice_def
        prisma_event_delete_def deleteAllForEvent_def deleteStoredImageFiles_def
        parseImages_stringifyImages_id imagePathOf_def uploadPath_def stripLeadingSlash_def
        emptyStore_def js_def)

theorem delete_removes_event_witness:
  "events demoStore2 (js ''e1'') = Some demoEvent2 \<and>
   js ''e1'' \<noteq> [] \<and> ownerId demoEvent2 = sub alice \<and>
   registrations demoStore2 =
     [\<lparr>reg_userId = js ''u2'', reg_eventId = js ''e1'', reg_createdAt = 5\<rparr>] \<and>
   parseImages (images demoEvent2) = [js ''/uploads/event-images/a.png''] \<and>
   files demoStore2 = {js ''uploads/event-images/a.png''} \<and>
   status (fst (deleteEvent alice (js ''e1'') demoStore2)) = 204 \<and>
   events (snd (deleteEvent alice (js ''e1'') demoStore2)) (js ''e1'') = None \<and>
   registrations (snd (deleteEvent alice (js ''e1'') demoStore2)) = [] \<and>
   files (snd (deleteEvent alice (js ''e1'') demoStore2)) = {} \<and>
   status (getEvent (js ''e1'') (snd (deleteEvent alice (js ''e1'') demoStore2))) = 404 \<and>
   status (getEvent (js ''e1'')
     (run demoRuntime demoEnv [PostEventRegister bob (js ''e1'') 6]
        (snd (deleteEvent alice (js ''e1'') demoStore2)))) = 404"
proof -
  have ev: "events demoStore2 (js ''e1'') = Some demoEvent2"
    by (simp add: demoStore2_def)
  have ne: "js ''e1'' \<noteq> []" by (simp add: js_def)
  have own: "ownerId demoEvent2 = sub alice"
    by (simp add: demoEvent2_def demoEvent_def alice_def)
  have regs: "registrations demoStore2 =
     [\<lparr>reg_userId = js ''u2'', reg_eventId = js ''e1'', reg_createdAt = 5\<rparr>]"
    by (simp add: demoStore2_def)
  have imgs: "parseImages (images demoEvent2) = [js ''/uploads/event-images/a.png'']"
    by (simp add: demoEvent2_def parseImages_stringifyImages_id imagePathOf_def js_def)
  have fls: "files demoStore2 = {js ''uploads/event-images/a.png''}"
    by (simp add: demoStore2_def uploadPath_def js_def)
  have after: "snd (deleteEvent alice (js ''e1'') demoStore2) = emptyStore"
    by (simp add: demo_delete)
  have nocreate: "\<forall>r \<in> set [PostEventRegister bob (js ''e1'') 6]. \<not> createsEvent (js ''e1'') r"
    by simp
  from delete_removes_event[OF ev, of alice demoRuntime demoEnv] ne own
  have ok: "status (fst (deleteEvent alice (js ''e1'') demoStore2)) = 204"
    and eff: "events (snd (deleteEvent alice (js ''e1'') demoStore2)) (js ''e1'') = None"
      "status (getEvent (js ''e1'') (snd (deleteEvent alice (js ''e1'') demoStore2))) = 404"
      "\<forall>rs. (\<forall>r \<in> set rs. \<not> createsEvent (js ''e1'') r) \<longrightarrow>
          status (getEvent (js ''e1'')
            (run demoRuntime demoEnv rs (snd (deleteEvent alice (js ''e1'') demoStore2)))) = 404"
    by blast+
  from eff(3) nocreate
  have later: "status (getEvent (js ''e1'')
     (run demoRuntime demoEnv [PostEventRegister bob (js ''e1'') 6]
        (snd (deleteEvent alice (js ''e1'') demoStore2)))) = 404"
    by blast
  show ?thesis
    using ev ne own regs imgs fls ok eff(1,2) later
    by (simp add: after emptyStore_def)
qed

section \<open>Registering for an event\<close>

lemma count_ledger_append [simp]:
  "count_ledger eid (regs @ [r]) = count_ledger eid regs + (if reg_eventId r = eid then 1 else 0)"
  by (simp add: count_ledger_def)

text \<open>
  C1: Register fails with NotFoundError when no event has the key, and with
  RegistrationClosedError when the event exists and \<open>now\<close> is at or after its deadline.
  While the registration is open it fails with CapacityExceededError when the count has
  reached the limit, and with DuplicateRegistrationError when the user holds a
  registration for the event; where both hold it fails with one of the two. A failure
  changes nothing. Otherwise the registration is stored and the confirmation carries the
  current count, one more than before.
\<close>

theorem register_outcomes:
  "(events st eid = None \<longrightarrow> Register eid uid now st = (Inl NotFoundError, st)) \<and>
   (events st eid = Some ev \<and> now \<ge> registrationDeadline ev \<longrightarrow>
      Register eid uid now st = (Inl RegistrationClosedError, st)) \<and>
   (events st eid = Some ev \<and> now < registrationDeadline ev \<and>
    int (count_ledger eid (registrations st)) \<ge> attendanceLimit ev \<longrightarrow>
      snd (Register eid uid now st) = st \<and>
      (fst (Register eid uid now st) = Inl CapacityExceededError \<or>
       exists_ledger uid eid (registrations st) \<and>
       fst (Register eid uid now st) = Inl DuplicateRegistrationError)) \<and>
   (events st eid = Some ev \<and> now < registrationDeadline ev \<and>
    exists_ledger uid eid (registrations st) \<longrightarrow>
      snd (Register eid uid now st) = st \<and>
      (fst (Register eid uid now st) = Inl DuplicateRegistrationError \<or>
       int (count_ledger eid (registrations st)) \<ge> attendanceLimit ev \<and>
       fst (Register eid uid now st) = Inl CapacityExceededError)) \<and>
   (events st eid = Some ev \<and> now < registrationDeadline ev \<and>
    int (count_ledger eid (registrations st)) < attendanceLimit ev \<and>
    \<not> exists_ledger uid eid (registrations st) \<longrightarrow>
      fst (Register eid uid now st) =
        Inr \<lparr>registrationCount = count_ledger eid (registrations (snd (Register eid uid now st)))\<rparr> \<and>
      count_ledger eid (registrations (snd (Register eid uid now st))) =
        Suc (count_ledger eid (registrations st)) \<and>
      exists_ledger uid eid (registrations (snd (Register eid uid now st))) \<and>
      registrations (snd (Register eid uid now st)) =
        registrations st @ [\<lparr>reg_userId = uid, reg_eventId = eid, reg_createdAt = now\<rparr>] \<and>
      events (snd (Register eid uid now st)) = events st)"
  by (auto simp: Register_def insert_ledger_def exists_ledger_def)

lemma demo_register_bob:
  "Register (js ''e1'') (sub bob) 5 demoStore =
     (Inr \<lparr>registrationCount = 1\<rparr>,
      demoStore\<lparr>registrations :=
        [\<lparr>reg_userId = js ''u2'', reg_eventId = js ''e1'', reg_createdAt = 5\<rparr>]\<rparr>)"
  by (simp add: Register_def demoStore_def demoEvent_def emptyStore_def count_ledger_def
        insert_ledger_def exists_ledger_def bob_def)

lemma demo_register_carol:
  "Register (js ''e1'') (sub carol) 6
     (demoStore\<lparr>registrations :=
        [\<lparr>reg_userId = js ''u2'', reg_eventId = js ''e1'', reg_createdAt = 5\<rparr>]\<rparr>) =
     (Inr \<lparr>registrationCount = 2\<rparr>, demoStoreFull)"
  by (simp add: Register_def demoStore_def demoStoreFull_def demoEvent_def emptyStore_def
        count_ledger_def insert_ledger_def exists_ledger_def carol_def js_def)

lemma demoStoreFull_reached:
  "run demoRuntime demoEnv
     [PostEvent alice (demoBody 20 10 2) (Uploaded []) 0 (js ''e1''),
      PostEventRegister bob (js ''e1'') 5,
      PostEventRegister carol (js ''e1'') 6] emptyStore = demoStoreFull"
  by (simp add: demo_created demoStore_def[symmetric] demo_register_bob demo_register_carol)

theorem register_outcomes_witness:
  "events demoStore (js ''e1'') = Some (demoEvent 20 10 2) \<and>
   events demoStore (js ''e9'') = None \<and>
   fst (Register (js ''e9'') (js ''u2'') 5 demoStore) = Inl NotFoundError \<and>
   (10::int) \<ge> registrationDeadline (demoEvent 20 10 2) \<and>
   fst (Register (js ''e1'') (js ''u2'') 10 demoStore) = Inl RegistrationClosedError \<and>
   (5::int) < registrationDeadline (demoEvent 20 10 2) \<and>
   int (count_ledger (js ''e1'') (registrations demoStore)) < attendanceLimit (demoEvent 20 10 2) \<and>
   \<not> exists_ledger (js ''u2'') (js ''e1'') (registrations demoStore) \<and>
   fst (Register (js ''e1'') (js ''u2'') 5 demoStore) = Inr \<lparr>registrationCount = 1\<rparr> \<and>
   events demoStoreFull (js ''e1'') = Some (demoEvent 20 10 2) \<and>
   int (count_ledger (js ''e1'') (registrations demoStoreFull)) \<ge>
     attendanceLimit (demoEvent 20 10 2) \<and>
   \<not> exists_ledger (js ''u4'') (js ''e1'') (registrations demoStoreFull) \<and>
   fst (Register (js ''e1'') (js ''u4'') 5 demoStoreFull) = Inl CapacityExceededError \<and>
   exists_ledger (js ''u2'') (js ''e1'') (registrations demoStoreFull) \<and>
   snd (Register (js ''e1'') (js ''u2'') 5 demoStoreFull) = demoStoreFull \<and>
   exists_ledger (js ''u2'') (js ''e1'')
     (registrations (snd (Register (js ''e1'') (js ''u2'') 5 demoStore))) \<and>
   fst (Register (js ''e1'') (js ''u2'') 7 (snd (Register (js ''e1'') (js ''u2'') 5 demoStore)))
     = Inl DuplicateRegistrationError"
proof -
  let ?ev = "demoEvent 20 10 2"
  let ?st1 = "snd (Register (js ''e1'') (js ''u2'') 5 demoStore)"
  have e1: "events demoStore (js ''e1'') = Some ?ev"
    by (simp add: demoStore_def emptyStore_def)
  have e9: "events demoStore (js ''e9'') = None"
    by (simp add: demoStore_def emptyStore_def js_def)
  have ef: "events demoStoreFull (js ''e1'') = Some ?ev"
    by (simp add: demoStoreFull_def)
  have dl: "registrationDeadline ?ev = 10" and al: "attendanceLimit ?ev = 2"
    by (simp_all add: demoEvent_def)
  have c0: "count_ledger (js ''e1'') (registrations demoStore) = 0"
    by (simp add: demoStore_def emptyStore_def count_ledger_def)
  have x0: "\<not> exists_ledger (js ''u2'') (js ''e1'') (registrations demoStore)"
    by (simp add: demoStore_def emptyStore_def exists_ledger_def)
  have cf: "count_ledger (js ''e1'') (registrations demoStoreFull) = 2"
    by (simp add: demoStoreFull_def count_ledger_def)
  have missing: "fst (Register (js ''e9'') (js ''u2'') 5 demoStore) = Inl NotFoundError"
    using register_outcomes[of demoStore "js ''e9''" "js ''u2''" 5 ?ev] e9 by simp
  have closed: "fst (Register (js ''e1'') (js ''u2'') 10 demoStore) = Inl RegistrationClosedError"
    using register_outcomes[of demoStore "js ''e1''" "js ''u2''" 10 ?ev] e1 dl by simp
  have xf: "\<not> exists_ledger (js ''u4'') (js ''e1'') (registrations demoStoreFull)"
    by (simp add: demoStoreFull_def exists_ledger_def js_def)
  have xb: "exists_ledger (js ''u2'') (js ''e1'') (registrations demoStoreFull)"
    by (simp add: demoStoreFull_def exists_ledger_def)
  have full: "fst (Register (js ''e1'') (js ''u4'') 5 demoStoreFull) = Inl CapacityExceededError"
    using register_outcomes[of demoStoreFull "js ''e1''" "js ''u4''" 5 ?ev] ef dl al cf xf by simp
  have both: "snd (Register (js ''e1'') (js ''u2'') 5 demoStoreFull) = demoStoreFull"
    using register_outcomes[of demoStoreFull "js ''e1''" "js ''u2''" 5 ?ev] ef dl al cf xb by simp
  have pre: "events demoStore (js ''e1'') = Some ?ev \<and> 5 < registrationDeadline ?ev \<and>
      int (count_ledger (js ''e1'') (registrations demoStore)) < attendanceLimit ?ev \<and>
      \<not> exists_ledger (js ''u2'') (js ''e1'') (registrations demoStore)"
    using e1 dl al c0 x0 by simp
  from register_outcomes[of demoStore "js ''e1''" "js ''u2''" 5 ?ev] pre
  have ok: "fst (Register (js ''e1'') (js ''u2'') 5 demoStore) =
        Inr \<lparr>registrationCount = count_ledger (js ''e1'') (registrations ?st1)\<rparr>"
    and c1: "count_ledger (js ''e1'') (registrations ?st1) =
        Suc (count_ledger (js ''e1'') (registrations demoStore))"
    and x1: "exists_ledger (js ''u2'') (js ''e1'') (registrations ?st1)"
    and ev1: "events ?st1 = events demoStore"
    by blast+
  have ok1: "fst (Register (js ''e1'') (js ''u2'') 5 demoStore) = Inr \<lparr>registrationCount = 1\<rparr>"
    using ok c1 c0 by simp
  have pre2: "events ?st1 (js ''e1'') = Some ?ev \<and> 7 < registrationDeadline ?ev \<and>
      int (count_ledger (js ''e1'') (registrations ?st1)) < attendanceLimit ?ev \<and>
      exists_ledger (js ''u2'') (js ''e1'') (registrations ?st1)"
    using ev1 e1 dl al c1 c0 x1 by simp
  have dup: "fst (Register (js ''e1'') (js ''u2'') 7 ?st1) = Inl DuplicateRegistrationError"
    using register_outcomes[of ?st1 "js ''e1''" "js ''u2''" 7 ?ev] pre2 by simp
  show ?thesis
    using e1 e9 missing closed pre ok1 ef xf full xb both x1 dup dl al cf
    by (intro conjI) simp_all
qed

text \<open>
  The scenarios of the spec on an event with one seat: the first registration is
  confirmed with count 1; the same user registering again fails with
  DuplicateRegistrationError, another user with CapacityExceededError, and neither
  changes the ledger.
\<close>

lemma register_last_seat:
  "Register (js ''e1'') (js ''u2'') 5 (emptyStore\<lparr>events := [js ''e1'' \<mapsto> demoEvent 20 10 1]\<rparr>) =
     (Inr \<lparr>registrationCount = 1\<rparr>,
      emptyStore\<lparr>events := [js ''e1'' \<mapsto> demoEvent 20 10 1],
        registrations := [\<lparr>reg_userId = js ''u2'', reg_eventId = js ''e1'', reg_createdAt = 5\<rparr>]\<rparr>) \<and>
   Register (js ''e1'') (js ''u2'') 6
     (emptyStore\<lparr>events := [js ''e1'' \<mapsto> demoEvent 20 10 1],
        registrations := [\<lparr>reg_userId = js ''u2'', reg_eventId = js ''e1'', reg_createdAt = 5\<rparr>]\<rparr>) =
     (Inl DuplicateRegistrationError,
      emptyStore\<lparr>events := [js ''e1'' \<mapsto> demoEvent 20 10 1],
        registrations := [\<lparr>reg_userId = js ''u2'', reg_eventId = js ''e1'', reg_createdAt = 5\<rparr>]\<rparr>) \<and>
   Register (js ''e1'') (js ''u3'') 6
     (emptyStore\<lparr>events := [js ''e1'' \<mapsto> demoEvent 20 10 1],
        registrations := [\<lparr>reg_userId = js ''u2'', reg_eventId = js ''e1'', reg_createdAt = 5\<rparr>]\<rparr>) =
     (Inl CapacityExceededError,
      emptyStore\<lparr>events := [js ''e1'' \<mapsto> demoEvent 20 10 1],
        registrations := [\<lparr>reg_userId = js ''u2'', reg_eventId = js ''e1'', reg_createdAt = 5\<rparr>]\<rparr>)"
  by (simp add: Register_def demoEvent_def emptyStore_def count_ledger_def insert_ledger_def
        exists_ledger_def js_def)

subsection \<open>The attendance limit\<close>

lemma count_deleteAllForEvent:
  "count_ledger e (deleteAllForEvent eid regs) = (if e = eid then 0 else count_ledger e regs)"
  by (induction regs) (auto simp: count_ledger_def deleteAllForEvent_def)

lemma in_deleteAllForEvent:
  "r \<in> set (deleteAllForEvent eid regs) \<longleftrightarrow> r \<in> set regs \<and> reg_eventId r \<noteq> eid"
  by (simp add: deleteAllForEvent_def)

lemma count_zero_if_unreferenced:
  "\<forall>r \<in> set regs. reg_eventId r \<noteq> e \<Longrightarrow> count_ledger e regs = 0"
  by (induction regs) (auto simp: count_ledger_def)

lemma Register_registrations:
  "registrations (snd (Register eid uid now st)) = registrations st \<or>
   (\<exists>ev. events st eid = Some ev \<and>
      int (count_ledger eid (registrations st)) < attendanceLimit ev \<and>
      registrations (snd (Register eid uid now st)) =
        registrations st @ [\<lparr>reg_userId = uid, reg_eventId = eid, reg_createdAt = now\<rparr>])"
  by (auto simp: Register_def insert_ledger_def split: option.splits)

lemma capacityInv_step:
  assumes inv: "capacityInv st" and ok: "\<not> lowersLimit r st"
  shows "capacityInv (step rt ENV r st)"
proof (cases r)
  case (PostEvent usr b up now newId)
  from postEvent_events[of usr b up now newId st]
  show ?thesis
  proof
    assume "events (snd (postEvent usr b up now newId st)) = events st"
    then show ?thesis using inv PostEvent by (simp add: capacityInv_def)
  next
    assume "\<exists>ev. events (snd (postEvent usr b up now newId st)) = (events st)(newId \<mapsto> ev) \<and>
      registrationDeadline ev < startsAt ev \<and> now < registrationDeadline ev \<and>
      0 < attendanceLimit ev \<and> newId \<notin> dom (events st) \<and> eventId ev = newId \<and>
      time_body b = DateValue (startsAt ev) \<and>
      registrationDeadline_body b = DateValue (registrationDeadline ev) \<and>
      attendanceLimit_body b = Integer (attendanceLimit ev)"
    then obtain ev where ev: "events (snd (postEvent usr b up now newId st)) = (events st)(newId \<mapsto> ev)"
      and pos: "0 < attendanceLimit ev" and fresh: "newId \<notin> dom (events st)"
      by blast
    have "\<forall>r \<in> set (registrations st). reg_eventId r \<noteq> newId"
      using inv fresh by (auto simp: capacityInv_def)
    then have "count_ledger newId (registrations st) = 0"
      by (rule count_zero_if_unreferenced)
    then show ?thesis
      using inv PostEvent ev pos by (auto simp: capacityInv_def)
  qed
next
  case (PutEvent usr b up eid now)
  from putEvent_events[of usr b up eid now st]
  show ?thesis
  proof
    assume "events (snd (putEvent usr b up eid now st)) = events st"
    then show ?thesis using inv PutEvent by (simp add: capacityInv_def)
  next
    assume "\<exists>old new. events st eid = Some old \<and>
      events (snd (putEvent usr b up eid now st)) = (events st)(eid \<mapsto> new) \<and>
      registrationDeadline new < startsAt new \<and>
      attendanceLimit_body b = Integer (attendanceLimit new)"
    then obtain old new where old: "events st eid = Some old"
      and new: "events (snd (putEvent usr b up eid now st)) = (events st)(eid \<mapsto> new)"
      and lim: "attendanceLimit_body b = Integer (attendanceLimit new)"
      by blast
    have "int (count_ledger eid (registrations st)) \<le> attendanceLimit new"
      using ok PutEvent lim by (simp add: lowersLimit_def)
    then show ?thesis
      using inv PutEvent new old by (auto simp: capacityInv_def)
  qed
next
  case (DeleteEvent usr eid)
  from deleteEvent_effect[of usr eid st]
  show ?thesis
  proof
    assume "events (snd (deleteEvent usr eid st)) = events st \<and>
      registrations (snd (deleteEvent usr eid st)) = registrations st"
    then show ?thesis using inv DeleteEvent by (simp add: capacityInv_def)
  next
    assume "events (snd (deleteEvent usr eid st)) = (events st)(eid := None) \<and>
      registrations (snd (deleteEvent usr eid st)) = deleteAllForEvent eid (registrations st)"
    then show ?thesis
      using inv DeleteEvent
      by (auto simp: capacityInv_def count_deleteAllForEvent in_deleteAllForEvent)
  qed
next
  case (PostEventRegister usr eid now)
  from Register_registrations[of eid "sub usr" now st]
  show ?thesis
  proof
    assume "registrations (snd (Register eid (sub usr) now st)) = registrations st"
    then show ?thesis using inv PostEventRegister by (simp add: capacityInv_def)
  next
    assume "\<exists>ev. events st eid = Some ev \<and>
      int (count_ledger eid (registrations st)) < attendanceLimit ev \<and>
      registrations (snd (Register eid (sub usr) now st)) =
        registrations st @ [\<lparr>reg_userId = sub usr, reg_eventId = eid, reg_createdAt = now\<rparr>]"
    then show ?thesis
      using inv PostEventRegister by (auto simp: capacityInv_def)
  qed
next
  case (PostRegister b up newId hash)
  then show ?thesis using inv by (simp add: capacityInv_def)
next
  case (PutProfile usr b up)
  then show ?thesis using inv by (simp add: capacityInv_def)
qed

lemma capacityInv_run:
  "capacityInv st \<Longrightarrow> keepsLimits rt ENV rs st \<Longrightarrow> capacityInv (run rt ENV rs st)"
  by (induction rs arbitrary: st) (simp_all add: capacityInv_step)

text \<open>
  C2, amended: in every state reached from the empty database by requests among which no
  Update sets the attendance limit of an event below its number of registrations, no
  stored event has more registrations than its attendance limit.
\<close>

theorem capacity_kept:
  assumes "keepsLimits rt ENV rs emptyStore"
    and "events (run rt ENV rs emptyStore) eid = Some ev"
  shows "int (count_ledger eid (registrations (run rt ENV rs emptyStore))) \<le> attendanceLimit ev"
proof -
  have "capacityInv emptyStore" by (simp add: capacityInv_def emptyStore_def)
  then have "capacityInv (run rt ENV rs emptyStore)"
    using assms(1) by (rule capacityInv_run)
  then show ?thesis using assms(2) by (simp add: capacityInv_def)
qed

lemma demo_lower_limit:
  "putEvent alice (demoBody 20 10 1) (Uploaded []) (js ''e1'') 7 demoStoreFull =
     (respond 200 (EventBody ''Event updated successfully'' (toPublicEvent (demoEvent 20 10 1))),
      demoStoreFull\<lparr>events := [js ''e1'' \<mapsto> demoEvent 20 10 1]\<rparr>)"
  by (simp add: putEvent_def handleUpdateEvent_def updateEventSchema_def createEventSchema_def
        zString_def zDate_def zPositiveInt_def validateSchedule_def demoBody_def demoEvent_def
        demoStoreFull_def alice_def Let_def firstNonEmpty_def trim_def
        isJsSpace_def storeUploads_def parseImages_stringifyImages_id js_def)

lemma run_append: "run rt ENV (rs @ rs') st = run rt ENV rs' (run rt ENV rs st)"
  by (induction rs arbitrary: st) simp_all

text \<open>
  C2 as stated fails: after two registrations for an event with limit 2, its owner
  updates the limit to 1, and the state has two registrations for a limit of one.
\<close>

theorem capacity_counterexample:
  "map_option attendanceLimit
     (events (run demoRuntime demoEnv
        [PostEvent alice (demoBody 20 10 2) (Uploaded []) 0 (js ''e1''),
         PostEventRegister bob (js ''e1'') 5,
         PostEventRegister carol (js ''e1'') 6,
         PutEvent alice (demoBody 20 10 1) (Uploaded []) (js ''e1'') 7] emptyStore) (js ''e1''))
     = Some 1 \<and>
   count_ledger (js ''e1'')
     (registrations (run demoRuntime demoEnv
        [PostEvent alice (demoBody 20 10 2) (Uploaded []) 0 (js ''e1''),
         PostEventRegister bob (js ''e1'') 5,
         PostEventRegister carol (js ''e1'') 6,
         PutEvent alice (demoBody 20 10 1) (Uploaded []) (js ''e1'') 7] emptyStore)) = 2"
proof -
  have "run demoRuntime demoEnv
        ([PostEvent alice (demoBody 20 10 2) (Uploaded []) 0 (js ''e1''),
          PostEventRegister bob (js ''e1'') 5,
          PostEventRegister carol (js ''e1'') 6] @
         [PutEvent alice (demoBody 20 10 1) (Uploaded []) (js ''e1'') 7]) emptyStore =
        demoStoreFull\<lparr>events := [js ''e1'' \<mapsto> demoEvent 20 10 1]\<rparr>"
    unfolding run_append demoStoreFull_reached by (simp add: demo_lower_limit)
  then show ?thesis
    by (simp add: demoStoreFull_def demoEvent_def count_ledger_def)
qed

theorem capacity_kept_witness:
  "keepsLimits demoRuntime demoEnv
     [PostEvent alice (demoBody 20 10 2) (Uploaded []) 0 (js ''e1''),
      PostEventRegister bob (js ''e1'') 5,
      PostEventRegister carol (js ''e1'') 6] emptyStore \<and>
   events (run demoRuntime demoEnv
     [PostEvent alice (demoBody 20 10 2) (Uploaded []) 0 (js ''e1''),
      PostEventRegister bob (js ''e1'') 5,
      PostEventRegister carol (js ''e1'') 6] emptyStore) (js ''e1'') = Some (demoEvent 20 10 2) \<and>
   count_ledger (js ''e1'') (registrations (run demoRuntime demoEnv
     [PostEvent alice (demoBody 20 10 2) (Uploaded []) 0 (js ''e1''),
      PostEventRegister bob (js ''e1'') 5,
      PostEventRegister carol (js ''e1'') 6] emptyStore)) = 2 \<and>
   int (count_ledger (js ''e1'') (registrations (run demoRuntime demoEnv
     [PostEvent alice (demoBody 20 10 2) (Uploaded []) 0 (js ''e1''),
      PostEventRegister bob (js ''e1'') 5,
      PostEventRegister carol (js ''e1'') 6] emptyStore))) \<le> attendanceLimit (demoEvent 20 10 2)"
proof -
  let ?rs = "[PostEvent alice (demoBody 20 10 2) (Uploaded []) 0 (js ''e1''),
      PostEventRegister bob (js ''e1'') 5,
      PostEventRegister carol (js ''e1'') 6]"
  have k: "keepsLimits demoRuntime demoEnv ?rs emptyStore"
    by (simp add: lowersLimit_def)
  have e: "events (run demoRuntime demoEnv ?rs emptyStore) (js ''e1'') = Some (demoEvent 20 10 2)"
    unfolding demoStoreFull_reached by (simp add: demoStoreFull_def)
  have c: "count_ledger (js ''e1'') (registrations (run demoRuntime demoEnv ?rs emptyStore)) = 2"
    unfolding demoStoreFull_reached by (simp add: demoStoreFull_def count_ledger_def)
  show ?thesis
    using capacity_kept[OF k e] k e c by (intro conjI) simp_all
qed

section \<open>Accounts and their university addresses\<close>

subsection \<open>The rows of the table\<close>

lemma users_cleanupFiles [simp]: "users (cleanupFiles fs st) = users st"
  by (simp add: cleanupFiles_def)

lemma users_unlinkUpload [simp]: "users (unlinkUpload f st) = users st"
  by (simp add: unlinkUpload_def split: option.splits)

lemma users_storeUpload [simp]: "users (storeUpload f st) = users st"
  by (simp add: storeUpload_def split: option.splits)

lemma findUserByEmail_None:
  "findUserByEmail e st = None \<longleftrightarrow> e \<notin> set (map universityEmail (users st))"
  by (auto simp: findUserByEmail_def find_None_iff)

lemma findUserById_None:
  "findUserById i st = None \<longleftrightarrow> i \<notin> set (map userId (users st))"
  by (auto simp: findUserById_def find_None_iff)

lemma findUserByEmail_storeUpload [simp]:
  "findUserByEmail e (storeUpload f st) = findUserByEmail e st"
  by (simp add: findUserByEmail_def)

lemma findUserById_storeUpload [simp]:
  "findUserById i (storeUpload f st) = findUserById i st"
  by (simp add: findUserById_def)

lemma findUserById_Some:
  "findUserById i st = Some u \<Longrightarrow> u \<in> set (users st) \<and> userId u = i"
  by (auto simp: findUserById_def find_Some_iff)

lemma prisma_user_create_Some:
  "prisma_user_create u st = Some st' \<Longrightarrow>
     st' = st\<lparr>users := users st @ [u]\<rparr> \<and>
     userId u \<notin> set (map userId (users st)) \<and>
     universityEmail u \<notin> set (map universityEmail (users st))"
  by (auto simp: prisma_user_create_def findUserByEmail_None findUserById_None split: if_splits)

lemma replace_keeps_keys:
  "g u = i \<Longrightarrow> map (\<lambda>v. g (if g v = i then u else v)) xs = map g xs"
  by (induction xs) auto

lemma replace_distinct:
  assumes "distinct (map g xs)" and "distinct (map f xs)" and "g u = i"
    and "\<forall>v \<in> set xs. g v \<noteq> i \<longrightarrow> f v \<noteq> f u"
  shows "distinct (map (\<lambda>v. f (if g v = i then u else v)) xs)"
  using assms
proof (induction xs)
  case Nil
  then show ?case by simp
next
  case (Cons x xs)
  let ?h = "\<lambda>v. f (if g v = i then u else v)"
  have IH: "distinct (map ?h xs)"
    using Cons by simp
  have dg: "g x \<notin> g ` set xs" and df: "f x \<notin> f ` set xs"
    using Cons.prems(1,2) by simp_all
  have "?h x \<noteq> ?h v" if v: "v \<in> set xs" for v
  proof (cases "g x = i")
    case True
    then have "g v \<noteq> i" using dg v by (metis imageI)
    then have "f v \<noteq> f u" using Cons.prems(4) v by simp
    then show ?thesis using True \<open>g v \<noteq> i\<close> by simp
  next
    case False
    then have xu: "f x \<noteq> f u" using Cons.prems(4) by simp
    have "f x \<noteq> f v" using df v by (metis imageI)
    then show ?thesis using False xu by simp
  qed
  then have "?h x \<notin> ?h ` set xs" by blast
  then show ?case using IH by (simp del: image_image)
qed

lemma prisma_user_update_inv:
  assumes "usersInv st" and "prisma_user_update i u st = Some st'" and "userId u = i"
  shows "usersInv st'"
proof -
  from assms(2) have st': "users st' = map (\<lambda>v. if userId v = i then u else v) (users st)"
    and free: "\<forall>v \<in> set (users st). userId v \<noteq> i \<longrightarrow> universityEmail v \<noteq> universityEmail u"
    by (auto simp: prisma_user_update_def split: if_splits)
  have "distinct (map (\<lambda>v. universityEmail (if userId v = i then u else v)) (users st))"
    using assms(1) assms(3) free by (intro replace_distinct) (auto simp: usersInv_def)
  moreover have "distinct (map (\<lambda>v. userId (if userId v = i then u else v)) (users st))"
    using assms(1) assms(3) by (simp only: replace_keeps_keys usersInv_def)
  ultimately show ?thesis
    by (simp add: usersInv_def st' comp_def)
qed

lemma postRegister_users:
  "users (snd (postRegister rt ENV b up newId hash st)) = users st \<or>
   (\<exists>u e. universityEmail_body b = Some e \<and>
      status (fst (postRegister rt ENV b up newId hash st)) = 201 \<and>
      users (snd (postRegister rt ENV b up newId hash st)) = users st @ [u] \<and>
      userId u = newId \<and> universityEmail u = toLowerCase rt e \<and>
      isAllowedDomain rt ENV (toLowerCase rt e) \<and>
      newId \<notin> set (map userId (users st)) \<and>
      toLowerCase rt e \<notin> set (map universityEmail (users st)))"
proof (cases up)
  case (SingleUploadError msg)
  then show ?thesis by (simp add: postRegister_def)
next
  case (SingleUploaded reqFile)
  show ?thesis
  proof (cases "registerSchema rt b")
    case None
    then show ?thesis using SingleUploaded by (simp add: postRegister_def handleRegister_def)
  next
    case (Some d)
    then have e: "universityEmail_body b = Some (universityEmail_data d)"
      by (auto simp: registerSchema_def zEmail_def split: option.splits if_splits)
    show ?thesis
      using SingleUploaded Some e
      by (auto simp: postRegister_def handleRegister_def Let_def respond_def
               dest!: prisma_user_create_Some
               split: option.splits sum.splits if_splits)
  qed
qed

subsection \<open>The handlers keep the addresses apart\<close>

lemma usersInv_files [simp]: "usersInv (st\<lparr>files := F\<rparr>) = usersInv st"
  by (simp add: usersInv_def)

lemma usersInv_storeUpload [simp]: "usersInv (storeUpload f st) = usersInv st"
  by (simp add: usersInv_def)

lemma usersInv_unlinkUpload [simp]: "usersInv (unlinkUpload f st) = usersInv st"
  by (simp add: usersInv_def)

lemma findUserById_files [simp]: "findUserById i (st\<lparr>files := F\<rparr>) = findUserById i st"
  by (simp add: findUserById_def)

lemma postRegister_inv:
  assumes "usersInv st"
  shows "usersInv (snd (postRegister rt ENV b up newId hash st))"
  using postRegister_users[of rt ENV b up newId hash st] assms
  by (auto simp: usersInv_def)

lemma handleProfileUpdate_inv:
  assumes "usersInv st" and "handleProfileUpdate rt ENV usr b reqFile st = Inr (resp, st')"
  shows "usersInv st'"
proof (cases "profileSchema rt b")
  case None
  then show ?thesis using assms by (auto simp: handleProfileUpdate_def)
next
  case (Some d)
  show ?thesis
  proof (cases "findUserById (sub usr) st")
    case None
    then show ?thesis using assms Some
      by (auto simp: handleProfileUpdate_def Let_def split: if_splits)
  next
    case (Some existingUser)
    then have id: "userId existingUser = sub usr" by (auto dest: findUserById_Some)
    show ?thesis
      using assms \<open>profileSchema rt b = Some d\<close> Some id
      by (auto simp: handleProfileUpdate_def Let_def
               split: if_splits option.splits prod.splits
               elim!: prisma_user_update_inv[rotated])
  qed
qed

lemma putProfile_inv:
  assumes "usersInv st"
  shows "usersInv (snd (putProfile rt ENV usr b up st))"
proof (cases up)
  case (SingleUploadError msg)
  then show ?thesis using assms by (simp add: putProfile_def)
next
  case (SingleUploaded reqFile)
  show ?thesis
  proof (cases "handleProfileUpdate rt ENV usr b reqFile (storeUpload reqFile st)")
    case (Inl a)
    then show ?thesis using assms SingleUploaded by (simp add: putProfile_def)
  next
    case (Inr r)
    obtain resp st' where r: "r = (resp, st')" by (cases r)
    have "usersInv st'"
      using handleProfileUpdate_inv[of "storeUpload reqFile st" rt ENV usr b reqFile resp st']
        assms Inr r by simp
    then show ?thesis using SingleUploaded Inr r by (simp add: putProfile_def)
  qed
qed

lemma usersInv_step: "usersInv st \<Longrightarrow> usersInv (step rt ENV r st)"
  by (cases r) (simp_all add: postRegister_inv putProfile_inv, simp_all add: usersInv_def)

lemma usersInv_run: "usersInv st \<Longrightarrow> usersInv (run rt ENV rs st)"
  by (induction rs arbitrary: st) (simp_all add: usersInv_step)

lemma postRegister_rejects:
  assumes "universityEmail_body b = Some e"
    and "toLowerCase rt e \<in> set (map universityEmail (users st)) \<or>
         \<not> isAllowedDomain rt ENV (toLowerCase rt e)"
  shows "status (fst (postRegister rt ENV b up newId hash st)) \<in> {400, 409}"
    and "users (snd (postRegister rt ENV b up newId hash st)) = users st"
proof -
  have d: "registerSchema rt b = Some d \<Longrightarrow> universityEmail_data d = e" for d
    using assms(1) by (auto simp: registerSchema_def zEmail_def split: option.splits if_splits)
  have inuse: "toLowerCase rt e \<in> set (map universityEmail (users st)) \<Longrightarrow>
      findUserByEmail (toLowerCase rt e) (storeUpload f st) \<noteq> None" for f
    using findUserByEmail_None[of "toLowerCase rt e" st] by simp
  show "status (fst (postRegister rt ENV b up newId hash st)) \<in> {400, 409}"
    using assms(2) d inuse
    by (auto simp: postRegister_def handleRegister_def Let_def respond_def
             split: singleUpload.splits option.splits)
  show "users (snd (postRegister rt ENV b up newId hash st)) = users st"
    using assms(2) d inuse
    by (auto simp: postRegister_def handleRegister_def Let_def respond_def
             split: singleUpload.splits option.splits)
qed

lemma postRegister_not_created:
  "status (fst (postRegister rt ENV b up newId hash st)) \<noteq> 201 \<Longrightarrow>
     users (snd (postRegister rt ENV b up newId hash st)) = users st"
  by (auto simp: postRegister_def handleRegister_def Let_def respond_def
           dest!: prisma_user_create_Some
           split: singleUpload.splits option.splits sum.splits if_splits)

lemma postRegister_created:
  assumes "status (fst (postRegister rt ENV b up newId hash st)) = 201"
  shows "case universityEmail_body b of
           None \<Rightarrow> False
         | Some e \<Rightarrow>
             map universityEmail (users (snd (postRegister rt ENV b up newId hash st))) =
               map universityEmail (users st) @ [toLowerCase rt e] \<and>
             isAllowedDomain rt ENV (toLowerCase rt e) \<and>
             toLowerCase rt e \<notin> set (map universityEmail (users st))"
proof (cases up)
  case (SingleUploadError msg)
  then show ?thesis using assms by (simp add: postRegister_def respond_def)
next
  case (SingleUploaded reqFile)
  show ?thesis
  proof (cases "registerSchema rt b")
    case None
    then show ?thesis using assms SingleUploaded
      by (simp add: postRegister_def handleRegister_def respond_def)
  next
    case (Some d)
    then have e: "universityEmail_body b = Some (universityEmail_data d)"
      by (auto simp: registerSchema_def zEmail_def split: option.splits if_splits)
    show ?thesis
      using assms SingleUploaded Some
      by (auto simp: e postRegister_def handleRegister_def Let_def respond_def
               dest!: prisma_user_create_Some
               split: option.splits sum.splits if_splits)
  qed
qed

text \<open>
  C9: in every state reached from the empty database no two stored users have the same
  university address. A registration that succeeds (201) adds one row whose address is
  the lower-cased address of the form, which is in the allowed domain and was not in
  use; a registration that does not answer 201 creates no user; and a registration whose
  lower-cased address is in use, or is outside the allowed domain, is answered with 400 or
  409 and creates no user.
\<close>

theorem university_email_unique:
  "distinct (map universityEmail (users (run rt ENV rs emptyStore))) \<and>
   (status (fst (postRegister rt ENV b up newId hash st)) = 201 \<longrightarrow>
      (case universityEmail_body b of
         None \<Rightarrow> False
       | Some e \<Rightarrow>
           map universityEmail (users (snd (postRegister rt ENV b up newId hash st))) =
             map universityEmail (users st) @ [toLowerCase rt e] \<and>
           isAllowedDomain rt ENV (toLowerCase rt e) \<and>
           toLowerCase rt e \<notin> set (map universityEmail (users st)))) \<and>
   (status (fst (postRegister rt ENV b up newId hash st)) \<noteq> 201 \<longrightarrow>
      users (snd (postRegister rt ENV b up newId hash st)) = users st) \<and>
   (universityEmail_body b = Some e \<and>
    (toLowerCase rt e \<in> set (map universityEmail (users st)) \<or>
     \<not> isAllowedDomain rt ENV (toLowerCase rt e)) \<longrightarrow>
      status (fst (postRegister rt ENV b up newId hash st)) \<in> {400, 409} \<and>
      users (snd (postRegister rt ENV b up newId hash st)) = users st)"
proof -
  have "usersInv emptyStore" by (simp add: usersInv_def emptyStore_def)
  then have "usersInv (run rt ENV rs emptyStore)" by (rule usersInv_run)
  then have "distinct (map universityEmail (users (run rt ENV rs emptyStore)))"
    by (simp add: usersInv_def)
  then show ?thesis
    using postRegister_created[of rt ENV b up newId hash st]
      postRegister_not_created[of rt ENV b up newId hash st]
      postRegister_rejects[of b e rt st ENV up newId hash]
    by blast
qed

lemma demo_lower: "toLowerCase demoRuntime (js ''Alice@UZH.ch'') = js ''alice@uzh.ch''"
  by (simp add: demoRuntime_def asciiLower_def js_def)

lemma demo_lower_gmail: "toLowerCase demoRuntime (js ''bob@gmail.com'') = js ''bob@gmail.com''"
  by (simp add: demoRuntime_def asciiLower_def js_def)

lemma demo_allowed: "isAllowedDomain demoRuntime demoEnv (js ''alice@uzh.ch'')"
  by (simp add: isAllowedDomain_def demoRuntime_def demoEnv_def asciiLower_def js_def)

lemma demo_not_allowed: "\<not> isAllowedDomain demoRuntime demoEnv (js ''bob@gmail.com'')"
  by (simp add: isAllowedDomain_def demoRuntime_def demoEnv_def asciiLower_def js_def)

lemma demo_schema:
  "registerSchema demoRuntime (demoRegisterBody (js ''Alice@UZH.ch'')) =
     Some \<lparr>fullName_data = js ''Alice Muster'', password_data = js ''secret1'', age_data = None,
           location_rdata = None, fieldOfStudies_data = None,
           universityEmail_data = js ''Alice@UZH.ch'', interests_data = None\<rparr>"
  by (simp add: registerSchema_def demoRegisterBody_def zString_def zStringMin_def
        zOptionalAge_def zOptionalString_def zEmail_def demoRuntime_def js_def)

lemma demo_register_status:
  "status (fst (postRegister demoRuntime demoEnv (demoRegisterBody (js ''Alice@UZH.ch''))
     (SingleUploaded None) (js ''u1'') (js ''hash'') emptyStore)) = 201"
  by (simp add: postRegister_def handleRegister_def demo_schema demo_lower demo_allowed Let_def
        storeUpload_def findUserByEmail_def findUserById_def prisma_user_create_def
        emptyStore_def respond_def)

theorem university_email_unique_witness:
  "status (fst (postRegister demoRuntime demoEnv (demoRegisterBody (js ''Alice@UZH.ch''))
     (SingleUploaded None) (js ''u1'') (js ''hash'') emptyStore)) = 201 \<and>
   map universityEmail (users (snd (postRegister demoRuntime demoEnv
     (demoRegisterBody (js ''Alice@UZH.ch'')) (SingleUploaded None) (js ''u1'') (js ''hash'')
     emptyStore))) = [js ''alice@uzh.ch''] \<and>
   isAllowedDomain demoRuntime demoEnv (js ''alice@uzh.ch'') \<and>
   \<not> isAllowedDomain demoRuntime demoEnv (toLowerCase demoRuntime (js ''bob@gmail.com'')) \<and>
   status (fst (postRegister demoRuntime demoEnv (demoRegisterBody (js ''bob@gmail.com''))
     (SingleUploaded None) (js ''u2'') (js ''hash'') emptyStore)) \<in> {400, 409} \<and>
   users (snd (postRegister demoRuntime demoEnv (demoRegisterBody (js ''bob@gmail.com''))
     (SingleUploaded None) (js ''u2'') (js ''hash'') emptyStore)) = [] \<and>
   distinct (map universityEmail (users (run demoRuntime demoEnv
     [PostRegister (demoRegisterBody (js ''Alice@UZH.ch'')) (SingleUploaded None) (js ''u1'')
        (js ''hash''),
      PostRegister (demoRegisterBody (js ''Alice@UZH.ch'')) (SingleUploaded None) (js ''u2'')
        (js ''hash'')] emptyStore)))"
proof -
  let ?b = "demoRegisterBody (js ''Alice@UZH.ch'')"
  let ?g = "demoRegisterBody (js ''bob@gmail.com'')"
  let ?rs = "[PostRegister ?b (SingleUploaded None) (js ''u1'') (js ''hash''),
              PostRegister ?b (SingleUploaded None) (js ''u2'') (js ''hash'')]"
  note ok = demo_register_status
  have eb: "universityEmail_body ?b = Some (js ''Alice@UZH.ch'')"
    and eg: "universityEmail_body ?g = Some (js ''bob@gmail.com'')"
    by (simp_all add: demoRegisterBody_def)
  have na: "\<not> isAllowedDomain demoRuntime demoEnv (toLowerCase demoRuntime (js ''bob@gmail.com''))"
    by (simp add: demo_lower_gmail demo_not_allowed)
  note t1 = university_email_unique[of demoRuntime demoEnv ?rs ?b "SingleUploaded None" "js ''u1''"
              "js ''hash''" emptyStore "js ''Alice@UZH.ch''"]
  note t2 = university_email_unique[of demoRuntime demoEnv ?rs ?g "SingleUploaded None" "js ''u2''"
              "js ''hash''" emptyStore "js ''bob@gmail.com''"]
  have created: "map universityEmail (users (snd (postRegister demoRuntime demoEnv ?b
      (SingleUploaded None) (js ''u1'') (js ''hash'') emptyStore))) = [js ''alice@uzh.ch'']"
    using t1 ok eb by (simp add: demo_lower emptyStore_def)
  have rejected: "status (fst (postRegister demoRuntime demoEnv ?g (SingleUploaded None) (js ''u2'')
      (js ''hash'') emptyStore)) \<in> {400, 409}"
    "users (snd (postRegister demoRuntime demoEnv ?g (SingleUploaded None) (js ''u2'')
      (js ''hash'') emptyStore)) = []"
    using t2 eg na by (simp_all add: emptyStore_def)
  have dist: "distinct (map universityEmail (users (run demoRuntime demoEnv ?rs emptyStore)))"
    using t1 by blast
  show ?thesis
    using ok created demo_allowed na rejected dist by (intro conjI)
qed

end
